theory Spec2Isabelle
  imports Complex_Main "HOL-Library.Char_ord" "HOL-Library.List_Lexorder"
begin

section \<open>Text: case folding, word characters, regular-expression searches\<close>

text \<open>
  Python strings are modelled as \<^typ>\<open>string\<close> over the ASCII range: \<open>str.lower\<close>
  changes the letters \<open>A\<close> to \<open>Z\<close> only, and the class \<open>\w\<close> of the \<open>re\<close> module
  holds the ASCII letters, the digits and the underscore. Characters outside ASCII are
  left alone by \<open>lower\<close> and are no word characters here.
\<close>

definition ascii_lowercase :: string where
  "ascii_lowercase = ''abcdefghijklmnopqrstuvwxyz''"

definition ascii_uppercase :: string where
  "ascii_uppercase = ''ABCDEFGHIJKLMNOPQRSTUVWXYZ''"

definition is_word_char :: "char \<Rightarrow> bool" where
  "is_word_char c \<longleftrightarrow> c \<in> set (ascii_lowercase @ ascii_uppercase @ ''0123456789_'')"

definition lower_char :: "char \<Rightarrow> char" where
  "lower_char c =
     (case map_of (zip ascii_uppercase ascii_lowercase) c of Some d \<Rightarrow> d | None \<Rightarrow> c)"

definition lower :: "string \<Rightarrow> string" where
  "lower s = map lower_char s"

text \<open>
  \<open>\b\<close> holds between two neighbouring positions when exactly one of them is a word
  character; the start and the end of the text count as a non-word neighbour.
\<close>

definition word_opt :: "char option \<Rightarrow> bool" where
  "word_opt x = (case x of None \<Rightarrow> False | Some c \<Rightarrow> is_word_char c)"

definition at_boundary :: "char option \<Rightarrow> char option \<Rightarrow> bool" where
  "at_boundary l r \<longleftrightarrow> word_opt l \<noteq> word_opt r"

definition first_opt :: "string \<Rightarrow> char option" where
  "first_opt s = (case s of [] \<Rightarrow> None | c # _ \<Rightarrow> Some c)"

definition last_opt :: "char option \<Rightarrow> string \<Rightarrow> char option" where
  "last_opt prev s = (if s = [] then prev else Some (last s))"

text \<open>
  \<open>match_at pat prev s\<close>: the pattern \<open>\b\<close> + \<open>re.escape(pat)\<close> + \<open>\b\<close> matches at the
  start of \<open>s\<close>, where \<open>prev\<close> is the character just before \<open>s\<close> in the whole text.
  \<open>re.escape\<close> makes the term match itself, character by character.
\<close>

definition match_at :: "string \<Rightarrow> char option \<Rightarrow> string \<Rightarrow> bool" where
  "match_at pat prev s =
     (if take (length pat) s = pat
      then at_boundary prev (first_opt s) \<and>
           at_boundary (last_opt prev pat) (first_opt (drop (length pat) s))
      else False)"

fun re_search_from :: "string \<Rightarrow> char option \<Rightarrow> string \<Rightarrow> bool" where
  "re_search_from pat prev [] = match_at pat prev []"
| "re_search_from pat prev (c # cs) =
     (match_at pat prev (c # cs) \<or> re_search_from pat (Some c) cs)"

text \<open>\<open>re.search(r'\b' + re.escape(pat) + r'\b', s)\<close> finds a match.\<close>

definition word_search :: "string \<Rightarrow> string \<Rightarrow> bool" where
  "word_search pat s = re_search_from pat None s"

text \<open>
  The words of the specification: \<open>T\<close> occurs in the text as a standalone word, with no
  word character next to it on either side.
\<close>

definition standalone :: "string \<Rightarrow> string \<Rightarrow> bool" where
  "standalone T s \<longleftrightarrow>
     (\<exists>pre post. s = pre @ T @ post \<and>
        (pre = [] \<or> \<not> is_word_char (last pre)) \<and>
        (post = [] \<or> \<not> is_word_char (hd post)))"

text \<open>A term the boundary pattern is meant for: it starts and ends with a word character.\<close>

definition word_term :: "string \<Rightarrow> bool" where
  "word_term T \<longleftrightarrow> T \<noteq> [] \<and> is_word_char (hd T) \<and> is_word_char (last T)"

text \<open>\<open>re.sub(r'<[^>]+>', '', s)\<close>: every \<open><\<close>, a non-empty run without \<open>>\<close>, \<open>>\<close> is removed.\<close>

function strip_tags :: "string \<Rightarrow> string" where
  "strip_tags [] = []"
| "strip_tags (c # cs) =
     (if c = CHR ''<'' \<and> takeWhile (\<lambda>x. x \<noteq> CHR ''>'') cs \<noteq> [] \<and>
         dropWhile (\<lambda>x. x \<noteq> CHR ''>'') cs \<noteq> []
      then strip_tags (tl (dropWhile (\<lambda>x. x \<noteq> CHR ''>'') cs))
      else c # strip_tags cs)"
  by pat_completeness auto
termination
proof (relation "measure length")
  show "wf (measure length)" by simp
next
  fix c :: char and cs :: string
  have "length (dropWhile (\<lambda>x. x \<noteq> CHR ''>'') cs) \<le> length cs"
    by (rule length_dropWhile_le)
  then show "(tl (dropWhile (\<lambda>x. x \<noteq> CHR ''>'') cs), c # cs) \<in> measure length"
    by simp
next
  fix c :: char and cs :: string
  show "(cs, c # cs) \<in> measure length" by simp
qed

text \<open>\<open>sep in s\<close>, \<open>s.split(sep)[0]\<close> and \<open>sep.join(xs)\<close>.\<close>

fun contains_sub :: "string \<Rightarrow> string \<Rightarrow> bool" where
  "contains_sub sep [] = (sep = [])"
| "contains_sub sep (c # cs) = (take (length sep) (c # cs) = sep \<or> contains_sub sep cs)"

fun split_head :: "string \<Rightarrow> string \<Rightarrow> string" where
  "split_head sep [] = []"
| "split_head sep (c # cs) =
     (if take (length sep) (c # cs) = sep then [] else c # split_head sep cs)"

fun join :: "string \<Rightarrow> string list \<Rightarrow> string" where
  "join sep [] = []"
| "join sep [x] = x"
| "join sep (x # y # ys) = x @ sep @ join sep (y # ys)"

section \<open>The gazetteer and the location matcher\<close>

text \<open>
  \<open>LOCATION_INDICATORS\<close> is a Python set; it is listed here in the order of the source
  text. The order in which the interpreter iterates a set of strings is not fixed, so
  every function that loops over the gazetteer takes that order as its argument \<open>locs\<close>.
\<close>

definition LOCATION_INDICATORS :: "string list" where
  "LOCATION_INDICATORS =
     [''california'', ''ca'', ''cali'', ''norcal'', ''socal'', ''bay area'',
      ''silicon valley'', ''east bay'', ''south bay'', ''peninsula'',
      ''san francisco'', ''sf'', ''oakland'', ''berkeley'', ''san jose'',
      ''los angeles'', ''san diego'', ''sacramento'', ''palo alto'', ''mountain view'',
      ''fremont'', ''santa clara'', ''cupertino'', ''menlo park'', ''redwood city'',
      ''sunnyvale'', ''santa monica'', ''venice beach'', ''pasadena'']"

text \<open>The inner loop over the gazetteer: the first term, in iteration order, found in the text.\<close>

definition first_location :: "string list \<Rightarrow> string \<Rightarrow> string option" where
  "first_location locs text_lower = find (\<lambda>location. word_search (lower location) text_lower) locs"

text \<open>The loop over \<open>text_fields.items()\<close>; the dictionary is the list of its items in order.\<close>

fun match_fields :: "string list \<Rightarrow> (string \<times> string) list \<Rightarrow> (string \<times> string) option" where
  "match_fields locs [] = None"
| "match_fields locs ((source, text) # rest) =
     (if text = [] then match_fields locs rest
      else case first_location locs (lower text) of
             Some location \<Rightarrow> Some (location, source)
           | None \<Rightarrow> match_fields locs rest)"

text \<open>The loop over the tags: the gazetteer is the outer loop, the tags the inner one.\<close>

definition match_tags :: "string list \<Rightarrow> string list \<Rightarrow> (string \<times> string) option" where
  "match_tags locs tags =
     (if tags \<noteq> [] then
        (case find (\<lambda>location. list_ex (\<lambda>tag. word_search (lower location) tag) (map lower tags)) locs of
           Some location \<Rightarrow> Some (location, ''tags'')
         | None \<Rightarrow> None)
      else None)"

definition find_location_match ::
  "string list \<Rightarrow> (string \<times> string) list \<Rightarrow> string list \<Rightarrow> (string \<times> string) option" where
  "find_location_match locs text_fields tags =
     (case match_fields locs text_fields of
        Some r \<Rightarrow> Some r
      | None \<Rightarrow> match_tags locs tags)"

text \<open>
  A post of the tag search. A key that is absent from the post is \<open>None\<close>.
\<close>

record post =
  p_blog_name :: "string option"
  p_body :: "string option"
  p_caption :: "string option"
  p_question :: "string option"
  p_answer :: "string option"
  p_timestamp :: "int option"

definition content_fields :: "post \<Rightarrow> (string \<times> string) list" where
  "content_fields p =
     (case p_body p of Some t \<Rightarrow> [(''body'', t)] | None \<Rightarrow> []) @
     (case p_caption p of Some t \<Rightarrow> [(''caption'', t)] | None \<Rightarrow> []) @
     (case p_question p of Some t \<Rightarrow> [(''question'', t)] | None \<Rightarrow> []) @
     (case p_answer p of Some t \<Rightarrow> [(''answer'', t)] | None \<Rightarrow> [])"

fun match_content :: "string list \<Rightarrow> (string \<times> string) list \<Rightarrow> (string \<times> string) option" where
  "match_content locs [] = None"
| "match_content locs ((source, text) # rest) =
     (if text = [] then match_content locs rest
      else case first_location locs (lower (strip_tags text)) of
             Some location \<Rightarrow> Some (location, ''post_'' @ source)
           | None \<Rightarrow> match_content locs rest)"

definition check_post_content_for_location :: "string list \<Rightarrow> post \<Rightarrow> (string \<times> string) option" where
  "check_post_content_for_location locs p = match_content locs (content_fields p)"

section \<open>Profiles and the eligibility check\<close>

text \<open>
  The record that \<open>blog_info\<close> returns for a blog. A key that is absent is \<open>None\<close>.
  Instants are seconds since the epoch; the clock reading \<open>now\<close> stands for
  \<open>datetime.now()\<close>, and a \<open>datetime\<close> made by \<open>fromtimestamp\<close> is the instant
  itself. The local time zone, and with it a change of the zone's offset between two
  instants, is not modelled.
\<close>

record blog_info =
  bi_url :: "string option"
  bi_title :: "string option"
  bi_description :: "string option"
  bi_tags :: "string list option"
  bi_total_followers :: "int option"
  bi_posts :: "int option"
  bi_updated :: "int option"

definition get_str :: "string option \<Rightarrow> string" where
  "get_str x = (case x of Some s \<Rightarrow> s | None \<Rightarrow> [])"

definition get_int :: "int option \<Rightarrow> int" where
  "get_int x = (case x of Some n \<Rightarrow> n | None \<Rightarrow> 0)"

definition get_tags :: "string list option \<Rightarrow> string list" where
  "get_tags x = (case x of Some ts \<Rightarrow> ts | None \<Rightarrow> [])"

text \<open>\<open>(datetime.now() - last_post_date).days\<close>: whole days, rounded down.\<close>

definition days_since :: "rat \<Rightarrow> int \<Rightarrow> int" where
  "days_since now updated = \<lfloor>(now - of_int updated) / 86400\<rfloor>"

definition meets_criteria :: "rat \<Rightarrow> blog_info \<Rightarrow> int \<Rightarrow> int \<Rightarrow> bool \<times> int option" where
  "meets_criteria now info min_followers max_days_inactive =
     (let followers = get_int (bi_total_followers info) in
      if followers < min_followers then (False, None)
      else
        let updated = get_int (bi_updated info) in
        if updated = 0 then (False, None)
        else
          let last_post_date = updated;
              days_since_post = days_since now last_post_date
          in if days_since_post > max_days_inactive then (False, Some last_post_date)
             else (True, Some last_post_date))"

section \<open>The world outside: clock, sleeping, the progress file, the two API calls\<close>

text \<open>
  The program's effects are explicit. The world holds the clock (seconds), the log of
  every \<open>time.sleep\<close> and the content of the progress file, if the file exists.
  Sleeping moves the clock on by the time slept; the time an API request itself takes
  is not modelled. The progress file holds the saved values themselves; their JSON text
  is not modelled.
\<close>

record qualified_blog =
  q_blog_name :: string
  q_blog_url :: string
  q_title :: string
  q_description :: string
  q_follower_count :: int
  q_total_posts :: int
  q_last_post_date :: "int option"
  q_location_match_term :: string
  q_location_match_source :: string
  q_blog_tags :: "string list"
  q_theme_matched :: string

record status =
  s_hourly_calls :: int
  s_hourly_limit :: int
  s_daily_calls :: int
  s_daily_limit :: int
  s_total_calls :: int

record progress =
  pr_discovered_blogs :: "(string \<times> qualified_blog) list"
  pr_blog_themes :: "(string \<times> string list) list"
  pr_rate_limit_status :: status
  pr_timestamp :: rat

record world =
  clock :: rat
  sleeps :: "rat list"
  progress_file :: "progress option"

definition sleep :: "rat \<Rightarrow> world \<Rightarrow> world" where
  "sleep d w = w\<lparr>clock := clock w + d, sleeps := sleeps w @ [d]\<rparr>"

text \<open>
  What the program cannot decide itself. \<open>tagged\<close> and \<open>blog_info_of\<close> are the answers
  of the service, which may differ from one instant to the next: \<open>tagged\<close> is \<open>None\<close>
  when the call raises, \<open>blog_info_of\<close> is \<open>None\<close> for every outcome that the caller
  reads as no profile (the call raises, the answer has no \<open>blog\<close> entry, or the entry is
  empty). \<open>gazetteer\<close> is the order in which the interpreter iterates
  \<open>LOCATION_INDICATORS\<close>, and \<open>first_of s\<close> is \<open>list(s)[0]\<close> for a set \<open>s\<close> of strings.
\<close>

record env =
  tagged :: "rat \<Rightarrow> string \<Rightarrow> int option \<Rightarrow> int \<Rightarrow> post list option"
  blog_info_of :: "rat \<Rightarrow> string \<Rightarrow> blog_info option"
  gazetteer :: "string list"
  first_of :: "string list \<Rightarrow> string"

section \<open>The rate limit tracker\<close>

record tracker =
  hourly_limit :: int
  daily_limit :: int
  hourly_calls :: int
  daily_calls :: int
  hour_start :: rat
  day_start :: rat
  total_calls :: int

definition new_tracker :: "rat \<Rightarrow> tracker" where
  "new_tracker now =
     \<lparr>hourly_limit = 1000, daily_limit = 5000, hourly_calls = 0, daily_calls = 0,
      hour_start = now, day_start = now, total_calls = 0\<rparr>"

definition record_call :: "tracker \<Rightarrow> tracker" where
  "record_call t =
     t\<lparr>hourly_calls := hourly_calls t + 1, daily_calls := daily_calls t + 1,
       total_calls := total_calls t + 1\<rparr>"

definition hour_rollover :: "rat \<Rightarrow> tracker \<Rightarrow> tracker" where
  "hour_rollover now t =
     (if now - hour_start t \<ge> 3600 then t\<lparr>hourly_calls := 0, hour_start := now\<rparr> else t)"

definition day_rollover :: "rat \<Rightarrow> tracker \<Rightarrow> tracker" where
  "day_rollover now t =
     (if now - day_start t \<ge> 86400 then t\<lparr>daily_calls := 0, day_start := now\<rparr> else t)"

definition hourly_wait :: "rat \<Rightarrow> tracker \<Rightarrow> world \<Rightarrow> tracker \<times> world" where
  "hourly_wait now t w =
     (if hourly_calls t \<ge> hourly_limit t - 10 then
        (let time_elapsed = now - hour_start t;
             time_remaining = 3600 - time_elapsed
         in if time_remaining > 0 then
              (let w' = sleep (time_remaining + 10) w
               in (t\<lparr>hourly_calls := 0, hour_start := clock w'\<rparr>, w'))
            else (t, w))
      else (t, w))"

definition check_and_wait :: "tracker \<Rightarrow> world \<Rightarrow> bool \<times> tracker \<times> world" where
  "check_and_wait t w =
     (let now = clock w;
          t1 = hour_rollover now t;
          t2 = day_rollover now t1;
          (t3, w3) = hourly_wait now t2 w
      in if daily_calls t3 \<ge> daily_limit t3 - 10 then (False, t3, w3) else (True, t3, w3))"

definition get_status :: "tracker \<Rightarrow> status" where
  "get_status t =
     \<lparr>s_hourly_calls = hourly_calls t, s_hourly_limit = hourly_limit t,
      s_daily_calls = daily_calls t, s_daily_limit = daily_limit t,
      s_total_calls = total_calls t\<rparr>"

section \<open>Dictionaries and sets of the finder\<close>

text \<open>
  A Python dictionary is the list of its items in insertion order: assigning to a key
  that is present keeps its place, a new key goes to the end. A Python set of strings is
  a list of its members; only the members matter, never their order in the list.
\<close>

type_synonym 'v dict = "(string \<times> 'v) list"

definition has_key :: "string \<Rightarrow> 'v dict \<Rightarrow> bool" where
  "has_key k d \<longleftrightarrow> k \<in> set (map fst d)"

fun dict_set :: "string \<Rightarrow> 'v \<Rightarrow> 'v dict \<Rightarrow> 'v dict" where
  "dict_set k v [] = [(k, v)]"
| "dict_set k v ((k', v') # rest) =
     (if k' = k then (k, v) # rest else (k', v') # dict_set k v rest)"

definition set_add :: "string \<Rightarrow> string list \<Rightarrow> string list" where
  "set_add x s = (if x \<in> set s then s else s @ [x])"

text \<open>\<open>d[k].add(x)\<close> on a \<open>defaultdict(set)\<close>: a missing key starts from the empty set.\<close>

definition default_add :: "string \<Rightarrow> string \<Rightarrow> string list dict \<Rightarrow> string list dict" where
  "default_add k x d = dict_set k (set_add x (case map_of d k of Some s \<Rightarrow> s | None \<Rightarrow> [])) d"

record finder =
  discovered_blogs :: "qualified_blog dict"
  blog_themes :: "string list dict"
  rate_tracker :: tracker

text \<open>
  The plain finder has no tracker; its functions below leave \<open>rate_tracker\<close> alone.
  \<open>AutoTumblrProfileFinder.__init__\<close> makes the tracker, which reads the clock.
\<close>

definition new_finder :: "rat \<Rightarrow> finder" where
  "new_finder now = \<lparr>discovered_blogs = [], blog_themes = [], rate_tracker = new_tracker now\<rparr>"

section \<open>The tag search\<close>

text \<open>The text stored for a location found in a post: \<open>f"{location_term} (in {source})"\<close>.\<close>

definition mention :: "string \<Rightarrow> string \<Rightarrow> string" where
  "mention location_term source = location_term @ '' (in '' @ source @ '')''"

text \<open>The body of the loop over the posts of one page.\<close>

definition scan_post ::
  "string list \<Rightarrow> post \<Rightarrow> string list dict \<times> int option \<Rightarrow> string list dict \<times> int option" where
  "scan_post locs p st =
     (let blog_locations = fst st; before = snd st;
          blog_locations' =
            (case p_blog_name p of
               None \<Rightarrow> blog_locations
             | Some blog_name \<Rightarrow>
                 (let bl1 =
                        (case check_post_content_for_location locs p of
                           Some (location_term, source) \<Rightarrow>
                             default_add blog_name (mention location_term source) blog_locations
                         | None \<Rightarrow> blog_locations)
                  in if \<not> has_key blog_name bl1 then dict_set blog_name [] bl1 else bl1));
          before' = (case p_timestamp p of Some ts \<Rightarrow> Some ts | None \<Rightarrow> before)
      in (blog_locations', before'))"

definition scan_posts ::
  "string list \<Rightarrow> post list \<Rightarrow> string list dict \<times> int option \<Rightarrow> string list dict \<times> int option" where
  "scan_posts locs response st = fold (scan_post locs) response st"

text \<open>\<open>if before:\<close> sends the cursor only when it is neither \<open>None\<close> nor \<open>0\<close>.\<close>

definition before_arg :: "int option \<Rightarrow> int option" where
  "before_arg before = (case before of Some b \<Rightarrow> if b = 0 then None else Some b | None \<Rightarrow> None)"

text \<open>The size asked of one page: \<open>min(20, max_posts - posts_retrieved)\<close>.\<close>

definition page_limit :: "int \<Rightarrow> int \<Rightarrow> int" where
  "page_limit max_posts posts_retrieved = min 20 (max_posts - posts_retrieved)"

text \<open>
  \<open>TumblrProfileFinder.search_theme_tag\<close>: the \<open>while\<close> loop, with its variables
  \<open>blog_locations\<close>, \<open>before\<close> and \<open>posts_retrieved\<close> as the loop state.
\<close>

function search_loop ::
  "env \<Rightarrow> string \<Rightarrow> int \<Rightarrow> string list dict \<times> int option \<times> int \<times> world \<Rightarrow> string list dict \<times> world" where
  "search_loop e theme max_posts (blog_locations, before, posts_retrieved, w) =
     (if posts_retrieved < max_posts then
        (let limit = page_limit max_posts posts_retrieved in
         case tagged e (clock w) theme (before_arg before) limit of
           None \<Rightarrow> (blog_locations, w)
         | Some response \<Rightarrow>
             if response = [] then (blog_locations, w)
             else
               (let st = scan_posts (gazetteer e) response (blog_locations, before) in
                if int (length response) < limit then (fst st, w)
                else search_loop e theme max_posts
                       (fst st, snd st, posts_retrieved + int (length response), sleep 2 w)))
      else (blog_locations, w))"
  by pat_completeness auto
termination
  by (relation "measure (\<lambda>(e, theme, max_posts, blog_locations, before, posts_retrieved, w).
                  nat (max_posts - posts_retrieved))") (auto simp: page_limit_def)

definition search_theme_tag :: "env \<Rightarrow> string \<Rightarrow> int \<Rightarrow> world \<Rightarrow> string list dict \<times> world" where
  "search_theme_tag e theme max_posts w = search_loop e theme max_posts ([], None, 0, w)"

text \<open>\<open>AutoTumblrProfileFinder.search_theme_tag\<close>: the same loop behind the tracker.\<close>

function search_loop_auto ::
  "env \<Rightarrow> string \<Rightarrow> int \<Rightarrow> string list dict \<times> int option \<times> int \<times> tracker \<times> world
     \<Rightarrow> string list dict \<times> tracker \<times> world" where
  "search_loop_auto e theme max_posts (blog_locations, before, posts_retrieved, t, w) =
     (if posts_retrieved < max_posts then
        (let r = check_and_wait t w; t1 = fst (snd r); w1 = snd (snd r) in
         if \<not> fst r then (blog_locations, t1, w1)
         else
           (let limit = page_limit max_posts posts_retrieved in
            case tagged e (clock w1) theme (before_arg before) limit of
              None \<Rightarrow> (blog_locations, t1, w1)
            | Some response \<Rightarrow>
                (let t2 = record_call t1 in
                 if response = [] then (blog_locations, t2, w1)
                 else
                   (let st = scan_posts (gazetteer e) response (blog_locations, before) in
                    if int (length response) < limit then (fst st, t2, w1)
                    else search_loop_auto e theme max_posts
                           (fst st, snd st, posts_retrieved + int (length response), t2,
                            sleep 2 w1)))))
      else (blog_locations, t, w))"
  by pat_completeness auto
termination
  by (relation "measure (\<lambda>(e, theme, max_posts, blog_locations, before, posts_retrieved, t, w).
                  nat (max_posts - posts_retrieved))") (auto simp: page_limit_def)

definition search_theme_tag_auto ::
  "env \<Rightarrow> string \<Rightarrow> int \<Rightarrow> tracker \<Rightarrow> world \<Rightarrow> string list dict \<times> tracker \<times> world" where
  "search_theme_tag_auto e theme max_posts t w =
     search_loop_auto e theme max_posts ([], None, 0, t, w)"

section \<open>Progress file\<close>

definition save_progress :: "finder \<Rightarrow> world \<Rightarrow> world" where
  "save_progress f w =
     w\<lparr>progress_file :=
         Some \<lparr>pr_discovered_blogs = discovered_blogs f,
               pr_blog_themes = map (\<lambda>(k, v). (k, v)) (blog_themes f),
               pr_rate_limit_status = get_status (rate_tracker f),
               pr_timestamp = clock w\<rparr>\<rparr>"

text \<open>
  \<open>load_progress\<close> returns whether the file exists, and the finder with the two
  dictionaries read from it; \<open>set(v)\<close> keeps one copy of every member of the list.
\<close>

definition load_progress :: "finder \<Rightarrow> world \<Rightarrow> bool \<times> finder" where
  "load_progress f w =
     (case progress_file w of
        Some pr \<Rightarrow>
          (True, f\<lparr>discovered_blogs := pr_discovered_blogs pr,
                   blog_themes := map (\<lambda>(k, v). (k, remdups v)) (pr_blog_themes pr)\<rparr>)
      | None \<Rightarrow> (False, f))"

section \<open>Processing the blogs of one theme\<close>

text \<open>The location of a candidate: from its posts first, from its profile otherwise.\<close>

definition mention_term :: "string \<Rightarrow> string" where
  "mention_term first_mention =
     (if contains_sub '' (in'' first_mention then split_head '' (in'' first_mention
      else first_mention)"

definition resolve_location :: "env \<Rightarrow> string list \<Rightarrow> blog_info \<Rightarrow> (string \<times> string) option" where
  "resolve_location e post_location_mentions info =
     (if post_location_mentions \<noteq> [] then
        (let first_mention = first_of e post_location_mentions
         in Some (mention_term first_mention, ''post_content''))
      else
        (let text_fields =
               [(''url'', get_str (bi_url info)), (''title'', get_str (bi_title info)),
                (''description'', get_str (bi_description info))];
             blog_tags = get_tags (bi_tags info)
         in find_location_match (gazetteer e) text_fields blog_tags))"

definition qualified_record ::
  "string \<Rightarrow> blog_info \<Rightarrow> int option \<Rightarrow> string \<Rightarrow> string \<Rightarrow> string \<Rightarrow> qualified_blog" where
  "qualified_record blog_name info last_post_date location_term location_source theme =
     \<lparr>q_blog_name = blog_name,
      q_blog_url = get_str (bi_url info),
      q_title = get_str (bi_title info),
      q_description = get_str (bi_description info),
      q_follower_count = get_int (bi_total_followers info),
      q_total_posts = get_int (bi_posts info),
      q_last_post_date = last_post_date,
      q_location_match_term = location_term,
      q_location_match_source = location_source,
      q_blog_tags = get_tags (bi_tags info),
      q_theme_matched = theme\<rparr>"

text \<open>Storing a blog that qualifies: its record and its first theme.\<close>

definition store_blog :: "string \<Rightarrow> qualified_blog \<Rightarrow> string \<Rightarrow> finder \<Rightarrow> finder" where
  "store_blog blog_name r theme f =
     f\<lparr>discovered_blogs := dict_set blog_name r (discovered_blogs f),
       blog_themes := default_add blog_name theme (blog_themes f)\<rparr>"

text \<open>
  What one fetched profile leads to, after \<open>if not blog_info\<close>: \<open>None\<close> when the loop
  goes on to the next blog, the record to store otherwise.
\<close>

definition qualify ::
  "env \<Rightarrow> rat \<Rightarrow> string \<Rightarrow> int \<Rightarrow> int \<Rightarrow> string \<Rightarrow> string list \<Rightarrow> blog_info \<Rightarrow> qualified_blog option" where
  "qualify e now theme min_followers max_days_inactive blog_name post_location_mentions info =
     (let m = meets_criteria now info min_followers max_days_inactive in
      if \<not> fst m then None
      else case resolve_location e post_location_mentions info of
             None \<Rightarrow> None
           | Some (location_term, location_source) \<Rightarrow>
               Some (qualified_record blog_name info (snd m) location_term location_source theme))"

text \<open>\<open>TumblrProfileFinder.process_blogs\<close>: the body of its loop, and the loop.\<close>

definition process_blog ::
  "env \<Rightarrow> string \<Rightarrow> int \<Rightarrow> int \<Rightarrow> string \<Rightarrow> string list \<Rightarrow> finder \<times> world \<Rightarrow> finder \<times> world" where
  "process_blog e theme min_followers max_days_inactive blog_name post_location_mentions st =
     (let f = fst st; w = snd st in
      if has_key blog_name (discovered_blogs f) then
        (f\<lparr>blog_themes := default_add blog_name theme (blog_themes f)\<rparr>, w)
      else case blog_info_of e (clock w) blog_name of
             None \<Rightarrow> (f, w)
           | Some info \<Rightarrow>
               (case qualify e (clock w) theme min_followers max_days_inactive blog_name
                       post_location_mentions info of
                  None \<Rightarrow> (f, w)
                | Some r \<Rightarrow> (store_blog blog_name r theme f, sleep 2 w)))"

fun process_loop ::
  "env \<Rightarrow> string \<Rightarrow> int \<Rightarrow> int \<Rightarrow> string list dict \<Rightarrow> finder \<times> world \<Rightarrow> finder \<times> world" where
  "process_loop e theme min_followers max_days_inactive [] st = st"
| "process_loop e theme min_followers max_days_inactive ((blog_name, mentions) # rest) st =
     process_loop e theme min_followers max_days_inactive rest
       (process_blog e theme min_followers max_days_inactive blog_name mentions st)"

definition process_blogs ::
  "env \<Rightarrow> string list dict \<Rightarrow> string \<Rightarrow> int \<Rightarrow> int \<Rightarrow> finder \<times> world \<Rightarrow> finder \<times> world" where
  "process_blogs e blog_locations theme min_followers max_days_inactive st =
     process_loop e theme min_followers max_days_inactive blog_locations st"

text \<open>
  \<open>AutoTumblrProfileFinder.get_blog_info\<close>: the tracker is asked first, and the call is
  counted before it is made.
\<close>

definition get_blog_info_auto ::
  "env \<Rightarrow> string \<Rightarrow> tracker \<Rightarrow> world \<Rightarrow> blog_info option \<times> tracker \<times> world" where
  "get_blog_info_auto e blog_name t w =
     (let r = check_and_wait t w; t1 = fst (snd r); w1 = snd (snd r) in
      if \<not> fst r then (None, t1, w1)
      else (blog_info_of e (clock w1) blog_name, record_call t1, w1))"

text \<open>
  \<open>AutoTumblrProfileFinder.process_blogs\<close>: the body of its loop. The first component of
  the result says that the body left the function by \<open>return\<close>; \<open>processed\<close> is the
  counter after its increment.
\<close>

definition process_blog_auto ::
  "env \<Rightarrow> string \<Rightarrow> int \<Rightarrow> int \<Rightarrow> int \<Rightarrow> string \<Rightarrow> string list \<Rightarrow> finder \<times> world
     \<Rightarrow> bool \<times> finder \<times> world" where
  "process_blog_auto e theme min_followers max_days_inactive processed blog_name
       post_location_mentions st =
     (let f = fst st; w = snd st in
      if has_key blog_name (discovered_blogs f) then
        (False, f\<lparr>blog_themes := default_add blog_name theme (blog_themes f)\<rparr>, w)
      else
        (let g = get_blog_info_auto e blog_name (rate_tracker f) w;
             t1 = fst (snd g); w1 = snd (snd g)
         in case fst g of
              None \<Rightarrow>
                (let r = check_and_wait t1 w1;
                     f2 = f\<lparr>rate_tracker := fst (snd r)\<rparr>; w2 = snd (snd r)
                 in if \<not> fst r then (True, f2, save_progress f2 w2) else (False, f2, w2))
            | Some info \<Rightarrow>
                (let f1 = f\<lparr>rate_tracker := t1\<rparr> in
                 case qualify e (clock w1) theme min_followers max_days_inactive blog_name
                        post_location_mentions info of
                   None \<Rightarrow> (False, f1, w1)
                 | Some r \<Rightarrow>
                     (let f2 = store_blog blog_name r theme f1;
                          w2 = (if processed mod 10 = 0 then save_progress f2 w1 else w1)
                      in (False, f2, sleep 2 w2)))))"

fun process_loop_auto ::
  "env \<Rightarrow> string \<Rightarrow> int \<Rightarrow> int \<Rightarrow> string list dict \<Rightarrow> int \<Rightarrow> finder \<times> world
     \<Rightarrow> bool \<times> finder \<times> world" where
  "process_loop_auto e theme min_followers max_days_inactive [] processed st = (False, st)"
| "process_loop_auto e theme min_followers max_days_inactive ((blog_name, mentions) # rest)
       processed st =
     (let r = process_blog_auto e theme min_followers max_days_inactive (processed + 1)
                blog_name mentions st
      in if fst r then r
         else process_loop_auto e theme min_followers max_days_inactive rest (processed + 1)
                (snd r))"

definition process_blogs_auto ::
  "env \<Rightarrow> string list dict \<Rightarrow> string \<Rightarrow> int \<Rightarrow> int \<Rightarrow> finder \<times> world \<Rightarrow> finder \<times> world" where
  "process_blogs_auto e blog_locations theme min_followers max_days_inactive st =
     (let r = process_loop_auto e theme min_followers max_days_inactive blog_locations 0 st
      in if fst r then snd r
         else (fst (snd r), save_progress (fst (snd r)) (snd (snd r))))"

section \<open>The whole search\<close>

text \<open>The last loop of \<open>run_search\<close>: every stored blog gets its themes, sorted and joined.\<close>

definition set_theme_matched :: "string \<times> string list \<Rightarrow> qualified_blog dict \<Rightarrow> qualified_blog dict" where
  "set_theme_matched item d =
     (if has_key (fst item) d then
        map (\<lambda>(k, r). if k = fst item
                        then (k, r\<lparr>q_theme_matched := join '', '' (sort (remdups (snd item)))\<rparr>)
                        else (k, r)) d
      else d)"

definition update_theme_matched :: "finder \<Rightarrow> finder" where
  "update_theme_matched f =
     f\<lparr>discovered_blogs := fold set_theme_matched (blog_themes f) (discovered_blogs f)\<rparr>"

text \<open>\<open>run_search\<close> as the plain finder runs it.\<close>

fun search_themes :: "env \<Rightarrow> int \<Rightarrow> int \<Rightarrow> int \<Rightarrow> string list \<Rightarrow> finder \<times> world \<Rightarrow> finder \<times> world" where
  "search_themes e max_posts_per_theme min_followers max_days_inactive [] st = st"
| "search_themes e max_posts_per_theme min_followers max_days_inactive (theme # themes) st =
     (let s = search_theme_tag e theme max_posts_per_theme (snd st);
          blog_locations = fst s; st1 = (fst st, snd s);
          st2 = (if blog_locations \<noteq> []
                 then process_blogs e blog_locations theme min_followers max_days_inactive st1
                 else st1)
      in search_themes e max_posts_per_theme min_followers max_days_inactive themes st2)"

definition run_search ::
  "env \<Rightarrow> string list \<Rightarrow> int \<Rightarrow> int \<Rightarrow> int \<Rightarrow> finder \<times> world \<Rightarrow> finder \<times> world" where
  "run_search e themes max_posts_per_theme min_followers max_days_inactive st =
     (let st' = search_themes e max_posts_per_theme min_followers max_days_inactive themes st
      in (update_theme_matched (fst st'), snd st'))"

text \<open>\<open>run_search\<close> as the rate-limited finder runs it, through its own two methods.\<close>

fun search_themes_auto ::
  "env \<Rightarrow> int \<Rightarrow> int \<Rightarrow> int \<Rightarrow> string list \<Rightarrow> finder \<times> world \<Rightarrow> finder \<times> world" where
  "search_themes_auto e max_posts_per_theme min_followers max_days_inactive [] st = st"
| "search_themes_auto e max_posts_per_theme min_followers max_days_inactive (theme # themes) st =
     (let s = search_theme_tag_auto e theme max_posts_per_theme (rate_tracker (fst st)) (snd st);
          blog_locations = fst s;
          st1 = ((fst st)\<lparr>rate_tracker := fst (snd s)\<rparr>, snd (snd s));
          st2 = (if blog_locations \<noteq> []
                 then process_blogs_auto e blog_locations theme min_followers max_days_inactive st1
                 else st1)
      in search_themes_auto e max_posts_per_theme min_followers max_days_inactive themes st2)"

definition run_search_auto ::
  "env \<Rightarrow> string list \<Rightarrow> int \<Rightarrow> int \<Rightarrow> int \<Rightarrow> finder \<times> world \<Rightarrow> finder \<times> world" where
  "run_search_auto e themes max_posts_per_theme min_followers max_days_inactive st =
     (let st' = search_themes_auto e max_posts_per_theme min_followers max_days_inactive themes st
      in (update_theme_matched (fst st'), snd st'))"

text \<open>
  The start of \<open>main\<close> with \<open>--resume\<close>: a new finder, made at the instant \<open>clock w\<close>,
  then \<open>load_progress\<close>.
\<close>

definition resume :: "world \<Rightarrow> finder" where
  "resume w = snd (load_progress (new_finder (clock w)) w)"

section \<open>Notions used in the statements\<close>

text \<open>
  The gazetteer terms, in iteration order, that stand alone in a text once both are in
  lower case; and those that stand alone in at least one tag.
\<close>

definition hits :: "string list \<Rightarrow> string \<Rightarrow> string list" where
  "hits locs field_text = filter (\<lambda>T. standalone (lower T) (lower field_text)) locs"

definition tag_hits :: "string list \<Rightarrow> string list \<Rightarrow> string list" where
  "tag_hits locs tags = filter (\<lambda>T. \<exists>tag\<in>set tags. standalone (lower T) (lower tag)) locs"

text \<open>What \<open>if not updated\<close> tests: the key is absent, or its value is \<open>0\<close>.\<close>

definition no_timestamp :: "blog_info \<Rightarrow> bool" where
  "no_timestamp info \<longleftrightarrow> bi_updated info = None \<or> bi_updated info = Some 0"

text \<open>A profile for the examples.\<close>

definition example_info :: blog_info where
  "example_info =
     \<lparr>bi_url = Some ''https://cats.tumblr.com/'', bi_title = Some ''Living in SF now'',
      bi_description = Some ''cats'', bi_tags = None,
      bi_total_followers = Some 25, bi_posts = Some 300, bi_updated = Some 1700000000\<rparr>"

definition busy_tracker :: tracker where
  "busy_tracker =
     \<lparr>hourly_limit = 1000, daily_limit = 5000, hourly_calls = 990, daily_calls = 4990,
      hour_start = 1700099400, day_start = 1700099400, total_calls = 4990\<rparr>"

definition example_world :: world where
  "example_world = \<lparr>clock = 1700100000, sleeps = [], progress_file = None\<rparr>"

definition timestamps :: "post list \<Rightarrow> int list" where
  "timestamps response = List.map_filter p_timestamp response"

definition evidence :: "string \<Rightarrow> string list dict \<Rightarrow> string set" where
  "evidence k d = (case map_of d k of Some s \<Rightarrow> set s | None \<Rightarrow> {})"

definition bare_post :: "string \<Rightarrow> int \<Rightarrow> post" where
  "bare_post blog_name ts =
     \<lparr>p_blog_name = Some blog_name, p_body = None, p_caption = None, p_question = None,
      p_answer = None, p_timestamp = Some ts\<rparr>"

definition example_page :: "post list" where
  "example_page = replicate 20 (bare_post ''cats'' 100)"

definition example_env :: env where
  "example_env =
     \<lparr>tagged = (\<lambda>now theme before limit. Some example_page),
      blog_info_of = (\<lambda>now blog_name. Some example_info),
      gazetteer = LOCATION_INDICATORS,
      first_of = hd\<rparr>"

definition profile_match :: "env \<Rightarrow> blog_info \<Rightarrow> (string \<times> string) option" where
  "profile_match e info =
     find_location_match (gazetteer e)
       [(''url'', get_str (bi_url info)), (''title'', get_str (bi_title info)),
        (''description'', get_str (bi_description info))]
       (get_tags (bi_tags info))"

section \<open>Lemmas on text\<close>

lemmas char_tables = ascii_lowercase_def ascii_uppercase_def is_word_char_def lower_char_def

lemma lower_char_idem: "lower_char (lower_char c) = lower_char c"
  by (simp add: char_tables)

lemma lower_idem: "lower (lower s) = lower s"
  by (simp add: lower_def lower_char_idem)

lemma lower_Nil_iff: "lower s = [] \<longleftrightarrow> s = []"
  by (simp add: lower_def)

lemma word_lower_char: "is_word_char (lower_char c) = is_word_char c"
  by (simp add: char_tables)

lemma word_term_lower: "word_term T \<Longrightarrow> word_term (lower T)"
  by (simp add: word_term_def lower_def hd_map last_map word_lower_char)

lemma take_eq_iff_append: "take (length pat) s = pat \<longleftrightarrow> (\<exists>post. s = pat @ post)"
proof
  assume "take (length pat) s = pat"
  then have "s = pat @ drop (length pat) s" by (metis append_take_drop_id)
  then show "\<exists>post. s = pat @ post" ..
next
  assume "\<exists>post. s = pat @ post"
  then show "take (length pat) s = pat" by auto
qed

lemma match_at_iff:
  "match_at pat prev s \<longleftrightarrow>
     (\<exists>post. s = pat @ post \<and> at_boundary prev (first_opt s) \<and>
        at_boundary (last_opt prev pat) (first_opt post))"
  unfolding match_at_def take_eq_iff_append by auto

text \<open>
  The search succeeds exactly when the text splits around an occurrence of the pattern
  with a boundary on each side of it.
\<close>

lemma re_search_from_iff:
  "re_search_from pat prev s \<longleftrightarrow>
     (\<exists>pre post. s = pre @ pat @ post \<and>
        at_boundary (last_opt prev pre) (first_opt (pat @ post)) \<and>
        at_boundary (last_opt (last_opt prev pre) pat) (first_opt post))"
proof (induction s arbitrary: prev)
  case Nil
  show ?case by (auto simp: match_at_iff last_opt_def)
next
  case (Cons c cs)
  have split: "(\<exists>pre post. c # cs = pre @ pat @ post \<and> P pre post) \<longleftrightarrow>
      (\<exists>post. c # cs = pat @ post \<and> P [] post) \<or>
      (\<exists>pre post. cs = pre @ pat @ post \<and> P (c # pre) post)"
    (is "?L \<longleftrightarrow> ?A \<or> ?B") for P
  proof
    assume ?L
    then obtain pre post where eq: "c # cs = pre @ pat @ post" and P: "P pre post" by blast
    show "?A \<or> ?B"
    proof (cases pre)
      case Nil
      with eq P show ?thesis by auto
    next
      case (Cons p pre')
      with eq P show ?thesis by auto
    qed
  next
    assume "?A \<or> ?B"
    then show ?L
    proof
      assume ?A
      then show ?L by (metis append_Nil)
    next
      assume ?B
      then obtain pre post where "cs = pre @ pat @ post" "P (c # pre) post" by blast
      then have "c # cs = (c # pre) @ pat @ post \<and> P (c # pre) post" by simp
      then show ?L by blast
    qed
  qed
  have lo: "last_opt prev (c # pre) = last_opt (Some c) pre" for pre
    by (simp add: last_opt_def)
  show ?case
    apply (simp only: re_search_from.simps Cons.IH)
    apply (subst split)
    apply (simp only: lo match_at_iff)
    apply (auto simp: last_opt_def)
    done
qed

text \<open>For a term that starts and ends with a word character, the search is the spec's notion.\<close>

lemma word_search_standalone:
  assumes "word_term T"
  shows "word_search T s \<longleftrightarrow> standalone T s"
proof -
  from assms have ne: "T \<noteq> []" and h: "is_word_char (hd T)" and l: "is_word_char (last T)"
    by (simp_all add: word_term_def)
  have a: "at_boundary (last_opt None pre) (first_opt (T @ post)) \<longleftrightarrow>
      (pre = [] \<or> \<not> is_word_char (last pre))" for pre post
    using ne h by (cases T) (auto simp: at_boundary_def last_opt_def first_opt_def word_opt_def)
  have b: "at_boundary (last_opt (last_opt None pre) T) (first_opt post) \<longleftrightarrow>
      (post = [] \<or> \<not> is_word_char (hd post))" for pre post
    using ne l
    by (auto simp: at_boundary_def last_opt_def first_opt_def word_opt_def split: list.splits)
  show ?thesis
    unfolding word_search_def re_search_from_iff standalone_def a b ..
qed

section \<open>Lemmas on the location matcher\<close>

lemma find_filter: "find P xs = (case filter P xs of [] \<Rightarrow> None | x # _ \<Rightarrow> Some x)"
  by (induction xs) auto

lemma hits_word_search:
  "\<forall>T\<in>set locs. word_term T \<Longrightarrow>
     hits locs field_text = filter (\<lambda>T. word_search (lower T) (lower field_text)) locs"
  unfolding hits_def
  by (intro filter_cong refl) (simp add: word_search_standalone word_term_lower)

lemma first_location_hits:
  assumes "\<forall>T\<in>set locs. word_term T"
  shows "first_location locs (lower field_text)
    = (case hits locs field_text of [] \<Rightarrow> None | T # _ \<Rightarrow> Some T)"
  by (simp add: first_location_def find_filter hits_word_search [OF assms])

lemma hits_Nil_text: "\<forall>T\<in>set locs. word_term T \<Longrightarrow> hits locs [] = []"
  by (auto simp: hits_def filter_empty_conv standalone_def lower_def word_term_def)

lemma match_fields_skip:
  assumes "\<forall>T\<in>set locs. word_term T"
    and "\<forall>(s, t)\<in>set pre. hits locs t = []"
  shows "match_fields locs (pre @ rest) = match_fields locs rest"
  using assms(2)
proof (induction pre)
  case Nil
  show ?case by simp
next
  case (Cons p pre)
  obtain s t where p: "p = (s, t)" by (cases p)
  with Cons.prems have "hits locs t = []" by simp
  then have "first_location locs (lower t) = None"
    by (simp add: first_location_hits [OF assms(1)])
  with Cons p show ?case by simp
qed

lemma match_fields_hit:
  assumes "\<forall>T\<in>set locs. word_term T" and "hits locs field_text \<noteq> []"
  shows "match_fields locs ((source, field_text) # rest) = Some (hd (hits locs field_text), source)"
proof -
  from assms have "field_text \<noteq> []" using hits_Nil_text by blast
  moreover from assms(2)
  have "first_location locs (lower field_text) = Some (hd (hits locs field_text))"
    by (cases "hits locs field_text") (simp_all add: first_location_hits [OF assms(1)])
  ultimately show ?thesis by simp
qed

lemma match_fields_some:
  assumes wt: "\<forall>T\<in>set locs. word_term T"
  shows "\<exists>(s, t)\<in>set text_fields. hits locs t \<noteq> [] \<Longrightarrow> match_fields locs text_fields \<noteq> None"
proof (induction text_fields)
  case Nil
  then show ?case by simp
next
  case (Cons p ps)
  obtain s t where p: "p = (s, t)" by (cases p)
  show ?case
  proof (cases "hits locs t = []")
    case True
    with Cons p have "match_fields locs ps \<noteq> None" by auto
    moreover from True have "match_fields locs ([(s, t)] @ ps) = match_fields locs ps"
      by (intro match_fields_skip [OF wt]) simp
    ultimately show ?thesis using p by simp
  next
    case False
    then show ?thesis using p match_fields_hit [OF wt False] by simp
  qed
qed

lemma match_tags_hits:
  assumes "\<forall>T\<in>set locs. word_term T"
  shows "match_tags locs tags =
    (case tag_hits locs tags of [] \<Rightarrow> None | T # _ \<Rightarrow> Some (T, ''tags''))"
proof -
  have "filter (\<lambda>T. list_ex (\<lambda>tag. word_search (lower T) tag) (map lower tags)) locs
      = tag_hits locs tags"
    unfolding tag_hits_def using assms
    by (intro filter_cong refl) (simp add: list_ex_iff word_search_standalone word_term_lower)
  then show ?thesis
    by (cases "tags = []") (auto simp: match_tags_def find_filter tag_hits_def split: list.splits)
qed

lemma match_fields_lower:
  "match_fields locs (map (\<lambda>(s, t). (s, lower t)) text_fields) = match_fields locs text_fields"
  by (induction text_fields) (auto simp: lower_idem lower_Nil_iff split: option.splits)

lemma match_tags_lower: "match_tags locs (map lower tags) = match_tags locs tags"
  by (simp add: match_tags_def lower_idem cong: map_cong)

text \<open>Evaluating the matcher on the gazetteer of the source, whose terms are in lower case.\<close>

lemma wt_locs: "\<forall>T\<in>set LOCATION_INDICATORS. word_term T"
  by code_simp

lemma lower_locs: "\<forall>T\<in>set LOCATION_INDICATORS. lower T = T"
  by code_simp

lemma hits_locs:
  "hits LOCATION_INDICATORS field_text
     = filter (\<lambda>T. word_search T (lower field_text)) LOCATION_INDICATORS"
  unfolding hits_word_search [OF wt_locs] using lower_locs
  by (intro filter_cong refl) simp

lemma hits_rev_locs:
  "hits (rev LOCATION_INDICATORS) field_text
     = rev (filter (\<lambda>T. word_search T (lower field_text)) LOCATION_INDICATORS)"
  by (simp add: hits_locs [symmetric] hits_def rev_filter)

lemma first_location_locs:
  "first_location LOCATION_INDICATORS text_lower
     = find (\<lambda>T. word_search T text_lower) LOCATION_INDICATORS"
  unfolding first_location_def using lower_locs
  by (intro find_cong refl) simp


section \<open>The location matcher on fields\<close>

text \<open>
  C5 (as amended). Let every gazetteer term start and end with a word character. If a
  field holds a gazetteer term \<open>T\<close> as a standalone word, case ignored, and no earlier
  field holds any term, the matcher returns that field as the source, together with the
  first term, in the iteration order of the gazetteer, that stands alone in the field;
  this is \<open>T\<close> when \<open>T\<close> is the only such term. When no term stands alone in any field
  or tag, the matcher returns nothing. The result does not depend on the case of the
  texts.
\<close>

theorem find_location_match_fields:
  assumes wt: "\<forall>T\<in>set locs. word_term T"
  shows
    "(text_fields = pre @ (source, field_text) # post \<and>
      (\<forall>(s, t)\<in>set pre. hits locs t = []) \<and>
      T \<in> set locs \<and> standalone (lower T) (lower field_text)
        \<longrightarrow> find_location_match locs text_fields tags
              = Some (hd (hits locs field_text), source) \<and>
            hd (hits locs field_text) \<in> set locs \<and>
            standalone (lower (hd (hits locs field_text))) (lower field_text) \<and>
            (hits locs field_text = [T]
               \<longrightarrow> find_location_match locs text_fields tags = Some (T, source))) \<and>
     ((\<forall>(s, t)\<in>set text_fields. hits locs t = []) \<and> (\<forall>tag\<in>set tags. hits locs tag = [])
        \<longrightarrow> find_location_match locs text_fields tags = None) \<and>
     find_location_match locs (map (\<lambda>(s, t). (s, lower t)) text_fields) (map lower tags)
       = find_location_match locs text_fields tags"
proof (intro conjI impI)
  assume a: "text_fields = pre @ (source, field_text) # post \<and>
      (\<forall>(s, t)\<in>set pre. hits locs t = []) \<and>
      T \<in> set locs \<and> standalone (lower T) (lower field_text)"
  then have ne: "hits locs field_text \<noteq> []" by (auto simp: hits_def filter_empty_conv)
  from a have "match_fields locs text_fields = match_fields locs ((source, field_text) # post)"
    using match_fields_skip [OF wt] by blast
  also have "\<dots> = Some (hd (hits locs field_text), source)"
    by (rule match_fields_hit [OF wt ne])
  finally show r: "find_location_match locs text_fields tags
      = Some (hd (hits locs field_text), source)"
    by (simp add: find_location_match_def)
  from ne have "hd (hits locs field_text) \<in> set (hits locs field_text)" by simp
  then show "hd (hits locs field_text) \<in> set locs"
    and "standalone (lower (hd (hits locs field_text))) (lower field_text)"
    by (simp_all add: hits_def)
  assume "hits locs field_text = [T]"
  with r show "find_location_match locs text_fields tags = Some (T, source)" by simp
next
  assume a: "(\<forall>(s, t)\<in>set text_fields. hits locs t = []) \<and> (\<forall>tag\<in>set tags. hits locs tag = [])"
  then have "match_fields locs (text_fields @ []) = match_fields locs []"
    using match_fields_skip [OF wt] by blast
  moreover from a have "tag_hits locs tags = []"
    by (auto simp: hits_def tag_hits_def filter_empty_conv)
  ultimately show "find_location_match locs text_fields tags = None"
    by (simp add: find_location_match_def match_tags_hits [OF wt])
next
  show "find_location_match locs (map (\<lambda>(s, t). (s, lower t)) text_fields) (map lower tags)
       = find_location_match locs text_fields tags"
    by (simp add: find_location_match_def match_fields_lower match_tags_lower
        split: option.splits)
qed

lemma hits_living: "hits LOCATION_INDICATORS ''Living in SF now'' = [''sf'']"
proof -
  have "lower ''Living in SF now'' = ''living in sf now''" by code_simp
  moreover have "filter (\<lambda>T. word_search T ''living in sf now'') LOCATION_INDICATORS = [''sf'']"
    by code_simp
  ultimately show ?thesis by (simp add: hits_locs)
qed

lemma hits_url: "hits LOCATION_INDICATORS ''https://cats.tumblr.com/'' = []"
proof -
  have "lower ''https://cats.tumblr.com/'' = ''https://cats.tumblr.com/''" by code_simp
  moreover have "filter (\<lambda>T. word_search T ''https://cats.tumblr.com/'') LOCATION_INDICATORS = []"
    by code_simp
  ultimately show ?thesis by (simp add: hits_locs)
qed

lemma hits_cats: "hits LOCATION_INDICATORS ''cats'' = []"
proof -
  have "lower ''cats'' = ''cats''" by code_simp
  moreover have "filter (\<lambda>T. word_search T ''cats'') LOCATION_INDICATORS = []"
    by code_simp
  ultimately show ?thesis by (simp add: hits_locs)
qed

lemma filter_sf_california:
  "filter (\<lambda>T. word_search T (lower ''SF California'')) LOCATION_INDICATORS
     = [''california'', ''sf'']"
proof -
  have "lower ''SF California'' = ''sf california''" by code_simp
  moreover have "filter (\<lambda>T. word_search T ''sf california'') LOCATION_INDICATORS
      = [''california'', ''sf'']"
    by code_simp
  ultimately show ?thesis by simp
qed

theorem find_location_match_fields_witness:
  "find_location_match LOCATION_INDICATORS
     [(''url'', ''https://cats.tumblr.com/''), (''title'', ''Living in SF now'')] [''cats'']
     = Some (''sf'', ''title'') \<and>
   find_location_match LOCATION_INDICATORS [(''url'', ''https://cats.tumblr.com/'')] [''cats'']
     = None"
proof -
  have sa: "standalone (lower ''sf'') (lower ''Living in SF now'')"
    using hits_living by (auto simp: hits_def filter_eq_Cons_iff)
  have mem: "''sf'' \<in> set LOCATION_INDICATORS" by (simp add: LOCATION_INDICATORS_def)
  show ?thesis
    using find_location_match_fields [OF wt_locs,
        where text_fields = "[(''url'', ''https://cats.tumblr.com/''), (''title'', ''Living in SF now'')]"
          and pre = "[(''url'', ''https://cats.tumblr.com/'')]" and source = "''title''"
          and field_text = "''Living in SF now''" and post = "[]" and T = "''sf''"
          and tags = "[''cats'']"]
      find_location_match_fields [OF wt_locs,
        where text_fields = "[(''url'', ''https://cats.tumblr.com/'')]" and tags = "[''cats'']"]
      sa mem
    by (simp add: hits_living hits_url hits_cats)
qed

text \<open>
  C5 as stated fails: the title \<open>SF California\<close> holds both \<open>sf\<close> and \<open>california\<close> as
  standalone words, and the matcher returns whichever comes first in the iteration
  order of the gazetteer, so under each order one of the two terms is not returned.
\<close>

theorem find_location_match_fields_counterexample:
  "standalone ''sf'' (lower ''SF California'') \<and> ''sf'' \<in> set LOCATION_INDICATORS \<and>
   find_location_match LOCATION_INDICATORS [(''title'', ''SF California'')] []
     = Some (''california'', ''title'') \<and>
   standalone ''california'' (lower ''SF California'') \<and>
   ''california'' \<in> set (rev LOCATION_INDICATORS) \<and>
   find_location_match (rev LOCATION_INDICATORS) [(''title'', ''SF California'')] []
     = Some (''sf'', ''title'')"
proof -
  have h: "hits LOCATION_INDICATORS ''SF California'' = [''california'', ''sf'']"
    by (simp add: hits_locs filter_sf_california)
  have hr: "hits (rev LOCATION_INDICATORS) ''SF California'' = [''sf'', ''california'']"
    by (simp add: hits_rev_locs filter_sf_california)
  have l: "lower ''sf'' = ''sf''" "lower ''california'' = ''california''" by code_simp+
  from h have "''sf'' \<in> set (hits LOCATION_INDICATORS ''SF California'')"
    and "''california'' \<in> set (hits LOCATION_INDICATORS ''SF California'')"
    by simp_all
  then have sa: "standalone ''sf'' (lower ''SF California'')"
    "standalone ''california'' (lower ''SF California'')"
    using l by (simp_all add: hits_def)
  have mem: "''sf'' \<in> set LOCATION_INDICATORS" "''california'' \<in> set (rev LOCATION_INDICATORS)"
    by (simp_all add: LOCATION_INDICATORS_def)
  have wtr: "\<forall>T\<in>set (rev LOCATION_INDICATORS). word_term T" using wt_locs by simp
  have "match_fields LOCATION_INDICATORS [(''title'', ''SF California'')]
      = Some (''california'', ''title'')"
    using match_fields_hit [OF wt_locs, of "''SF California''" "''title''" "[]"] h by simp
  moreover have "match_fields (rev LOCATION_INDICATORS) [(''title'', ''SF California'')]
      = Some (''sf'', ''title'')"
    using match_fields_hit [OF wtr, of "''SF California''" "''title''" "[]"] hr by simp
  ultimately show ?thesis using sa mem by (simp add: find_location_match_def)
qed

section \<open>The location matcher on tags\<close>

text \<open>
  C9 (as amended). Let every gazetteer term start and end with a word character. When
  some field holds a gazetteer term the tags play no part in the result. When no field
  does, the result is the first gazetteer term, in the iteration order of the gazetteer,
  that stands alone in any of the tags, with the source \<open>tags\<close>; it is nothing when no
  term stands alone in a tag.
\<close>

theorem find_location_match_tags:
  assumes wt: "\<forall>T\<in>set locs. word_term T"
  shows
    "((\<exists>(s, t)\<in>set text_fields. hits locs t \<noteq> [])
        \<longrightarrow> find_location_match locs text_fields tags
            = find_location_match locs text_fields []) \<and>
     ((\<forall>(s, t)\<in>set text_fields. hits locs t = [])
        \<longrightarrow> find_location_match locs text_fields tags
            = (case tag_hits locs tags of [] \<Rightarrow> None | T # _ \<Rightarrow> Some (T, ''tags'')))"
proof (intro conjI impI)
  assume "\<exists>(s, t)\<in>set text_fields. hits locs t \<noteq> []"
  then have "match_fields locs text_fields \<noteq> None" by (rule match_fields_some [OF wt])
  then show "find_location_match locs text_fields tags = find_location_match locs text_fields []"
    by (auto simp: find_location_match_def)
next
  assume "\<forall>(s, t)\<in>set text_fields. hits locs t = []"
  then have "match_fields locs (text_fields @ []) = match_fields locs []"
    by (rule match_fields_skip [OF wt])
  then show "find_location_match locs text_fields tags
      = (case tag_hits locs tags of [] \<Rightarrow> None | T # _ \<Rightarrow> Some (T, ''tags''))"
    by (simp add: find_location_match_def match_tags_hits [OF wt])
qed

lemma tag_hits_locs:
  "tag_hits LOCATION_INDICATORS tags
     = filter (\<lambda>T. list_ex (\<lambda>tag. word_search T tag) (map lower tags)) LOCATION_INDICATORS"
  unfolding tag_hits_def using wt_locs lower_locs
  by (intro filter_cong refl) (simp add: list_ex_iff word_search_standalone)

lemma tag_hits_sf_california:
  "tag_hits LOCATION_INDICATORS [''SF'', ''California''] = [''california'', ''sf'']"
proof -
  have "map lower [''SF'', ''California''] = [''sf'', ''california'']" by code_simp
  moreover have "filter (\<lambda>T. list_ex (\<lambda>tag. word_search T tag) [''sf'', ''california''])
      LOCATION_INDICATORS = [''california'', ''sf'']"
    by code_simp
  ultimately show ?thesis by (simp add: tag_hits_locs)
qed

theorem find_location_match_tags_witness:
  "find_location_match LOCATION_INDICATORS
     [(''url'', ''https://cats.tumblr.com/''), (''title'', ''Living in SF now'')]
     [''SF'', ''California'']
     = find_location_match LOCATION_INDICATORS
         [(''url'', ''https://cats.tumblr.com/''), (''title'', ''Living in SF now'')] [] \<and>
   find_location_match LOCATION_INDICATORS [(''url'', ''https://cats.tumblr.com/'')]
     [''SF'', ''California''] = Some (''california'', ''tags'')"
  using find_location_match_tags [OF wt_locs,
      where text_fields = "[(''url'', ''https://cats.tumblr.com/''), (''title'', ''Living in SF now'')]"
        and tags = "[''SF'', ''California'']"]
    find_location_match_tags [OF wt_locs,
      where text_fields = "[(''url'', ''https://cats.tumblr.com/'')]"
        and tags = "[''SF'', ''California'']"]
  by (simp add: hits_living hits_url tag_hits_sf_california)

text \<open>
  C9 as stated fails: of the tags \<open>SF\<close>, \<open>California\<close> the first one that matches is
  \<open>SF\<close>, whose only term is \<open>sf\<close>, yet the term returned is \<open>california\<close>, which stands
  before \<open>sf\<close> in the gazetteer.
\<close>

theorem find_location_match_tags_counterexample:
  "hits LOCATION_INDICATORS ''SF'' = [''sf''] \<and>
   find_location_match LOCATION_INDICATORS [] [''SF'', ''California'']
     = Some (''california'', ''tags'')"
proof -
  have "lower ''SF'' = ''sf''" by code_simp
  moreover have "filter (\<lambda>T. word_search T ''sf'') LOCATION_INDICATORS = [''sf'']"
    by code_simp
  ultimately have "hits LOCATION_INDICATORS ''SF'' = [''sf'']" by (simp add: hits_locs)
  moreover have "find_location_match LOCATION_INDICATORS [] [''SF'', ''California'']
      = Some (''california'', ''tags'')"
    by (simp add: find_location_match_def match_tags_hits [OF wt_locs] tag_hits_sf_california)
  ultimately show ?thesis by simp
qed

section \<open>The eligibility check\<close>

lemma get_int_updated: "get_int (bi_updated info) = 0 \<longleftrightarrow> no_timestamp info"
  by (cases "bi_updated info") (simp_all add: get_int_def no_timestamp_def)

lemma days_since_example: "days_since 1700100000 1700000000 = 1"
  by (simp add: days_since_def floor_unique)

text \<open>
  C7. The check returns \<open>(False, None)\<close> when the follower count is below
  \<open>min_followers\<close>, whatever the activity, and when the profile has no last-updated
  timestamp, which for the code is an absent or zero \<open>updated\<close>; it returns false when
  the whole days since the timestamp exceed \<open>max_days_inactive\<close>; in every other case
  it returns true with the last-post date made from the timestamp.
\<close>

theorem meets_criteria_spec:
  "(get_int (bi_total_followers info) < min_followers \<or> no_timestamp info
      \<longrightarrow> meets_criteria now info min_followers max_days_inactive = (False, None)) \<and>
   (days_since now (get_int (bi_updated info)) > max_days_inactive
      \<longrightarrow> \<not> fst (meets_criteria now info min_followers max_days_inactive)) \<and>
   (\<not> get_int (bi_total_followers info) < min_followers \<and> \<not> no_timestamp info \<and>
    \<not> days_since now (get_int (bi_updated info)) > max_days_inactive
      \<longrightarrow> meets_criteria now info min_followers max_days_inactive
            = (True, Some (get_int (bi_updated info))))"
  by (auto simp: meets_criteria_def Let_def get_int_updated)

theorem meets_criteria_spec_witness:
  "meets_criteria 1700100000 example_info 10 90 = (True, Some 1700000000) \<and>
   meets_criteria 1700100000 example_info 26 90 = (False, None) \<and>
   \<not> fst (meets_criteria 1700100000 example_info 10 0)"
  using meets_criteria_spec [where info = example_info and min_followers = 10
      and now = 1700100000 and max_days_inactive = 90]
    meets_criteria_spec [where info = example_info and min_followers = 26
      and now = 1700100000 and max_days_inactive = 90]
    meets_criteria_spec [where info = example_info and min_followers = 10
      and now = 1700100000 and max_days_inactive = 0]
  by (simp add: example_info_def get_int_def no_timestamp_def days_since_example)

text \<open>
  C10. A profile whose \<open>updated\<close> is absent or \<open>0\<close> gets \<open>(False, None)\<close>. A profile
  that has enough followers and a timestamp, and fails the inactivity test only, gets
  false together with its last-post date.
\<close>

theorem meets_criteria_zero_and_inactive:
  "(no_timestamp info
      \<longrightarrow> meets_criteria now info min_followers max_days_inactive = (False, None)) \<and>
   (min_followers \<le> get_int (bi_total_followers info) \<and> bi_updated info = Some updated \<and>
    updated \<noteq> 0 \<and> days_since now updated > max_days_inactive
      \<longrightarrow> meets_criteria now info min_followers max_days_inactive = (False, Some updated))"
  by (auto simp: meets_criteria_def Let_def get_int_def no_timestamp_def)

theorem meets_criteria_zero_and_inactive_witness:
  "meets_criteria 1700100000 (example_info\<lparr>bi_updated := Some 0\<rparr>) 10 90 = (False, None) \<and>
   meets_criteria 1700100000 (example_info\<lparr>bi_updated := None\<rparr>) 10 90 = (False, None) \<and>
   meets_criteria 1700100000 example_info 10 0 = (False, Some 1700000000)"
  using meets_criteria_zero_and_inactive [where info = "example_info\<lparr>bi_updated := Some 0\<rparr>"
      and now = 1700100000 and min_followers = 10 and max_days_inactive = 90]
    meets_criteria_zero_and_inactive [where info = "example_info\<lparr>bi_updated := None\<rparr>"
      and now = 1700100000 and min_followers = 10 and max_days_inactive = 90]
    meets_criteria_zero_and_inactive [where info = example_info and now = 1700100000
      and min_followers = 10 and max_days_inactive = 0 and updated = 1700000000]
  by (simp add: example_info_def get_int_def no_timestamp_def days_since_example)

section \<open>The rate limit tracker\<close>

lemma check_and_wait_hourly:
  assumes "hourly_calls t \<ge> hourly_limit t - 10" and "clock w - hour_start t < 3600"
  shows "check_and_wait t w =
    (daily_calls (day_rollover (clock w) t) < daily_limit t - 10,
     (day_rollover (clock w) t)
       \<lparr>hourly_calls := 0, hour_start := clock w + (3600 - (clock w - hour_start t) + 10)\<rparr>,
     sleep (3600 - (clock w - hour_start t) + 10) w)"
  using assms
  by (auto simp: check_and_wait_def hour_rollover_def day_rollover_def hourly_wait_def Let_def
      sleep_def)

lemma check_and_wait_daily:
  assumes "daily_calls t \<ge> daily_limit t - 10" and "clock w - day_start t < 86400"
  shows "\<not> fst (check_and_wait t w)"
  using assms
  by (auto simp: check_and_wait_def hour_rollover_def day_rollover_def hourly_wait_def Let_def
      sleep_def)

lemma check_and_wait_no_sleep:
  assumes "hourly_calls t < hourly_limit t - 10" and "10 < hourly_limit t"
  shows "snd (snd (check_and_wait t w)) = w"
  using assms
  by (auto simp: check_and_wait_def hour_rollover_def day_rollover_def hourly_wait_def Let_def)

theorem check_and_wait_spec:
  "(hourly_calls t \<ge> hourly_limit t - 10 \<and> clock w - hour_start t < 3600
      \<longrightarrow> snd (snd (check_and_wait t w)) = sleep (3600 - (clock w - hour_start t) + 10) w \<and>
          hourly_calls (fst (snd (check_and_wait t w))) = 0 \<and>
          hour_start (fst (snd (check_and_wait t w))) = clock (snd (snd (check_and_wait t w))) \<and>
          (fst (check_and_wait t w)
             \<longleftrightarrow> daily_calls (day_rollover (clock w) t) < daily_limit t - 10)) \<and>
   (daily_calls t \<ge> daily_limit t - 10 \<and> clock w - day_start t < 86400
      \<longrightarrow> \<not> fst (check_and_wait t w) \<and>
          (hourly_calls t < hourly_limit t - 10 \<and> 10 < hourly_limit t
             \<longrightarrow> snd (snd (check_and_wait t w)) = w))"
proof (intro conjI impI)
  assume a: "hourly_calls t \<ge> hourly_limit t - 10 \<and> clock w - hour_start t < 3600"
  then have eq: "check_and_wait t w =
    (daily_calls (day_rollover (clock w) t) < daily_limit t - 10,
     (day_rollover (clock w) t)
       \<lparr>hourly_calls := 0, hour_start := clock w + (3600 - (clock w - hour_start t) + 10)\<rparr>,
     sleep (3600 - (clock w - hour_start t) + 10) w)"
    by (intro check_and_wait_hourly) simp_all
  show "snd (snd (check_and_wait t w)) = sleep (3600 - (clock w - hour_start t) + 10) w"
    and "hourly_calls (fst (snd (check_and_wait t w))) = 0"
    and "hour_start (fst (snd (check_and_wait t w))) = clock (snd (snd (check_and_wait t w)))"
    and "fst (check_and_wait t w)
             \<longleftrightarrow> daily_calls (day_rollover (clock w) t) < daily_limit t - 10"
    by (simp_all add: eq sleep_def)
next
  assume "daily_calls t \<ge> daily_limit t - 10 \<and> clock w - day_start t < 86400"
  then show "\<not> fst (check_and_wait t w)" by (intro check_and_wait_daily) simp_all
next
  assume "hourly_calls t < hourly_limit t - 10 \<and> 10 < hourly_limit t"
  then show "snd (snd (check_and_wait t w)) = w" by (intro check_and_wait_no_sleep) simp_all
qed

theorem check_and_wait_spec_witness:
  "snd (snd (check_and_wait (busy_tracker\<lparr>daily_calls := 2000\<rparr>) example_world))
     = sleep 3010 example_world \<and>
   fst (check_and_wait (busy_tracker\<lparr>daily_calls := 2000\<rparr>) example_world) \<and>
   \<not> fst (check_and_wait (busy_tracker\<lparr>hourly_calls := 40\<rparr>) example_world) \<and>
   snd (snd (check_and_wait (busy_tracker\<lparr>hourly_calls := 40\<rparr>) example_world)) = example_world"
  using check_and_wait_spec [of "busy_tracker\<lparr>daily_calls := 2000\<rparr>" example_world]
    check_and_wait_spec [of "busy_tracker\<lparr>hourly_calls := 40\<rparr>" example_world]
  by (simp add: busy_tracker_def example_world_def day_rollover_def)

theorem check_and_wait_counterexample:
  "hourly_calls busy_tracker \<ge> hourly_limit busy_tracker - 10 \<and>
   clock example_world - hour_start busy_tracker < 3600 \<and>
   daily_calls busy_tracker \<ge> daily_limit busy_tracker - 10 \<and>
   check_and_wait busy_tracker example_world =
     (False, busy_tracker\<lparr>hourly_calls := 0, hour_start := 1700103010\<rparr>,
      example_world\<lparr>clock := 1700103010, sleeps := [3010]\<rparr>)"
  by (simp add: busy_tracker_def example_world_def check_and_wait_def hour_rollover_def
      day_rollover_def hourly_wait_def Let_def sleep_def)

declare search_loop.simps [simp del] search_loop_auto.simps [simp del]

section \<open>Dictionaries\<close>

lemma map_of_dict_set: "map_of (dict_set k v d) = (map_of d)(k \<mapsto> v)"
  by (induction k v d rule: dict_set.induct) (auto simp: fun_eq_iff)

lemma keys_dict_set:
  "map fst (dict_set k v d) = (if k \<in> set (map fst d) then map fst d else map fst d @ [k])"
  by (induction k v d rule: dict_set.induct) auto

lemma has_key_dict_set: "has_key k' (dict_set k v d) \<longleftrightarrow> k' = k \<or> has_key k' d"
  by (auto simp: has_key_def keys_dict_set)

lemma has_key_map_of: "has_key k d \<longleftrightarrow> map_of d k \<noteq> None"
  by (simp add: has_key_def map_of_eq_None_iff)

lemma distinct_dict_set: "distinct (map fst d) \<Longrightarrow> distinct (map fst (dict_set k v d))"
  by (simp add: keys_dict_set)

lemma has_key_default_add: "has_key k' (default_add k x d) \<longleftrightarrow> k' = k \<or> has_key k' d"
  by (simp add: default_add_def has_key_dict_set)

lemma set_set_add: "set (set_add x s) = insert x (set s)"
  by (auto simp: set_add_def)

lemma evidence_dict_set:
  "evidence k' (dict_set k v d) = (if k' = k then set v else evidence k' d)"
  by (simp add: evidence_def map_of_dict_set)

lemma evidence_default_add:
  "evidence k' (default_add k x d) = (if k' = k then insert x (evidence k d) else evidence k' d)"
proof -
  have "evidence k d = set (case map_of d k of Some s \<Rightarrow> s | None \<Rightarrow> [])"
    by (simp add: evidence_def split: option.splits)
  then show ?thesis by (simp add: default_add_def evidence_dict_set set_set_add)
qed

lemma evidence_no_key: "\<not> has_key k d \<Longrightarrow> evidence k d = {}"
  by (simp add: evidence_def has_key_map_of)

section \<open>The tag search\<close>

lemma snd_scan_post:
  "snd (scan_post locs p st) = (case p_timestamp p of Some ts \<Rightarrow> Some ts | None \<Rightarrow> snd st)"
  by (simp add: scan_post_def Let_def)

lemma scan_posts_Nil: "scan_posts locs [] st = st"
  by (simp add: scan_posts_def)

lemma scan_posts_Cons: "scan_posts locs (p # ps) st = scan_posts locs ps (scan_post locs p st)"
  by (simp add: scan_posts_def)

lemma timestamps_Nil: "timestamps [] = []"
  by (simp add: timestamps_def List.map_filter_simps)

lemma timestamps_Cons:
  "timestamps (p # ps)
     = (case p_timestamp p of Some ts \<Rightarrow> ts # timestamps ps | None \<Rightarrow> timestamps ps)"
  by (simp add: timestamps_def List.map_filter_simps split: option.splits)

lemma snd_scan_posts:
  "snd (scan_posts locs response st)
     = (if timestamps response = [] then snd st else Some (last (timestamps response)))"
proof (induction response arbitrary: st)
  case Nil
  show ?case by (simp add: scan_posts_Nil timestamps_Nil)
next
  case (Cons p ps)
  show ?case
  proof (cases "p_timestamp p")
    case None
    then show ?thesis
      by (simp add: scan_posts_Cons timestamps_Cons Cons.IH snd_scan_post)
  next
    case (Some ts)
    then show ?thesis
      by (simp add: scan_posts_Cons timestamps_Cons Cons.IH snd_scan_post)
  qed
qed

lemma hd_sorted_Min:
  fixes ys :: "int list"
  assumes "sorted (y # ys)"
  shows "Min (set (y # ys)) = y"
proof (rule Min_eqI)
  show "finite (set (y # ys))" by simp
  show "y \<in> set (y # ys)" by simp
  fix z
  assume "z \<in> set (y # ys)"
  with assms show "y \<le> z" by auto
qed

lemma last_Min:
  fixes xs :: "int list"
  assumes "xs \<noteq> []" and "sorted (rev xs)"
  shows "last xs = Min (set xs)"
proof -
  obtain y ys where r: "rev xs = y # ys"
    using assms(1) by (cases "rev xs") simp_all
  have "sorted (y # ys)" using assms(2) unfolding r .
  then have "Min (set (y # ys)) = y" by (rule hd_sorted_Min)
  moreover have "set (y # ys) = set xs" unfolding r [symmetric] by simp
  moreover have "last xs = hd (rev xs)" using assms(1) by (simp add: hd_rev)
  then have "last xs = y" unfolding r by simp
  ultimately show ?thesis by simp
qed

lemma scan_post_keeps:
  "(has_key k (fst st) \<longrightarrow> has_key k (fst (scan_post locs p st))) \<and>
   evidence k (fst st) \<subseteq> evidence k (fst (scan_post locs p st))"
proof (cases "p_blog_name p")
  case None
  then show ?thesis by (simp add: scan_post_def Let_def)
next
  case (Some blog_name)
  define bl1 where "bl1 =
    (case check_post_content_for_location locs p of
       Some (location_term, source) \<Rightarrow>
         default_add blog_name (mention location_term source) (fst st)
     | None \<Rightarrow> fst st)"
  have k1: "(has_key k (fst st) \<longrightarrow> has_key k bl1) \<and> evidence k (fst st) \<subseteq> evidence k bl1"
    by (auto simp: bl1_def has_key_default_add evidence_default_add split: option.splits)
  have r: "fst (scan_post locs p st) = (if \<not> has_key blog_name bl1 then dict_set blog_name [] bl1 else bl1)"
    using Some by (simp add: scan_post_def Let_def bl1_def)
  have "(has_key k bl1 \<longrightarrow> has_key k (fst (scan_post locs p st))) \<and>
      evidence k bl1 \<subseteq> evidence k (fst (scan_post locs p st))"
    unfolding r by (auto simp: has_key_dict_set evidence_dict_set evidence_no_key)
  with k1 show ?thesis by blast
qed

lemma scan_posts_keeps:
  "(has_key k (fst st) \<longrightarrow> has_key k (fst (scan_posts locs response st))) \<and>
   evidence k (fst st) \<subseteq> evidence k (fst (scan_posts locs response st))"
proof (induction response arbitrary: st)
  case Nil
  show ?case by (simp add: scan_posts_Nil)
next
  case (Cons p ps)
  show ?case
    unfolding scan_posts_Cons using Cons.IH [of "scan_post locs p st"] scan_post_keeps [of k st locs p]
    by blast
qed

text \<open>The rate-limited loop, branch by branch.\<close>

lemma search_loop_auto_done:
  "\<not> posts_retrieved < max_posts \<Longrightarrow>
     search_loop_auto e theme max_posts (bl, before, posts_retrieved, t, w) = (bl, t, w)"
  by (simp add: search_loop_auto.simps [of _ _ _ bl])

lemma search_loop_auto_denied:
  "posts_retrieved < max_posts \<Longrightarrow> \<not> fst (check_and_wait t w) \<Longrightarrow>
     search_loop_auto e theme max_posts (bl, before, posts_retrieved, t, w)
       = (bl, snd (check_and_wait t w))"
  by (simp add: search_loop_auto.simps [of _ _ _ bl] Let_def)

lemma search_loop_auto_error:
  "posts_retrieved < max_posts \<Longrightarrow> fst (check_and_wait t w) \<Longrightarrow>
   tagged e (clock (snd (snd (check_and_wait t w)))) theme (before_arg before)
     (page_limit max_posts posts_retrieved) = None \<Longrightarrow>
     search_loop_auto e theme max_posts (bl, before, posts_retrieved, t, w)
       = (bl, snd (check_and_wait t w))"
  by (simp add: search_loop_auto.simps [of _ _ _ bl] Let_def)

lemma search_loop_auto_last:
  "posts_retrieved < max_posts \<Longrightarrow> fst (check_and_wait t w) \<Longrightarrow>
   tagged e (clock (snd (snd (check_and_wait t w)))) theme (before_arg before)
     (page_limit max_posts posts_retrieved) = Some response \<Longrightarrow>
   response = [] \<or> int (length response) < page_limit max_posts posts_retrieved \<Longrightarrow>
     search_loop_auto e theme max_posts (bl, before, posts_retrieved, t, w)
       = (if response = [] then bl else fst (scan_posts (gazetteer e) response (bl, before)),
          record_call (fst (snd (check_and_wait t w))), snd (snd (check_and_wait t w)))"
  by (auto simp: search_loop_auto.simps [of _ _ _ bl] Let_def)

lemma search_loop_auto_next:
  "posts_retrieved < max_posts \<Longrightarrow> fst (check_and_wait t w) \<Longrightarrow>
   tagged e (clock (snd (snd (check_and_wait t w)))) theme (before_arg before)
     (page_limit max_posts posts_retrieved) = Some response \<Longrightarrow>
   response \<noteq> [] \<Longrightarrow> \<not> int (length response) < page_limit max_posts posts_retrieved \<Longrightarrow>
     search_loop_auto e theme max_posts (bl, before, posts_retrieved, t, w)
       = search_loop_auto e theme max_posts
           (fst (scan_posts (gazetteer e) response (bl, before)),
            snd (scan_posts (gazetteer e) response (bl, before)),
            posts_retrieved + int (length response),
            record_call (fst (snd (check_and_wait t w))),
            sleep 2 (snd (snd (check_and_wait t w))))"
  by (simp add: search_loop_auto.simps [of _ _ _ bl] Let_def)

lemma search_loop_next:
  "posts_retrieved < max_posts \<Longrightarrow>
   tagged e (clock w) theme (before_arg before) (page_limit max_posts posts_retrieved)
     = Some response \<Longrightarrow>
   response \<noteq> [] \<Longrightarrow> \<not> int (length response) < page_limit max_posts posts_retrieved \<Longrightarrow>
     search_loop e theme max_posts (bl, before, posts_retrieved, w)
       = search_loop e theme max_posts
           (fst (scan_posts (gazetteer e) response (bl, before)),
            snd (scan_posts (gazetteer e) response (bl, before)),
            posts_retrieved + int (length response), sleep 2 w)"
  by (simp add: search_loop.simps [of _ _ _ bl] Let_def)

text \<open>Whatever the loop has gathered stays in what it returns.\<close>

lemma search_loop_auto_keeps:
  "(has_key k (fst st) \<longrightarrow> has_key k (fst (search_loop_auto e theme max_posts st))) \<and>
   evidence k (fst st) \<subseteq> evidence k (fst (search_loop_auto e theme max_posts st))"
proof (induction e theme max_posts st rule: search_loop_auto.induct)
  case (1 e theme max_posts bl before posts_retrieved t w)
  let ?r = "search_loop_auto e theme max_posts (bl, before, posts_retrieved, t, w)"
  let ?w1 = "snd (snd (check_and_wait t w))"
  let ?limit = "page_limit max_posts posts_retrieved"
  show ?case
  proof (cases "posts_retrieved < max_posts")
    case False
    then show ?thesis by (simp add: search_loop_auto_done)
  next
    case lt: True
    show ?thesis
    proof (cases "fst (check_and_wait t w)")
      case False
      with lt show ?thesis by (simp add: search_loop_auto_denied)
    next
      case ok: True
      show ?thesis
      proof (cases "tagged e (clock ?w1) theme (before_arg before) ?limit")
        case None
        with lt ok show ?thesis by (simp add: search_loop_auto_error)
      next
        case (Some response)
        let ?st = "scan_posts (gazetteer e) response (bl, before)"
        have keep: "(has_key k bl \<longrightarrow> has_key k (fst ?st)) \<and>
            evidence k bl \<subseteq> evidence k (fst ?st)"
          using scan_posts_keeps [of k "(bl, before)"] by simp
        show ?thesis
        proof (cases "response = [] \<or> int (length response) < ?limit")
          case True
          have "?r = (if response = [] then bl else fst ?st,
              record_call (fst (snd (check_and_wait t w))), ?w1)"
            by (rule search_loop_auto_last [OF lt ok Some True])
          with keep show ?thesis by auto
        next
          case False
          then have ne: "response \<noteq> []" and ge: "\<not> int (length response) < ?limit"
            by simp_all
          from ok have ok': "\<not> \<not> fst (check_and_wait t w)" by simp
          note IH = "1.IH" [OF lt refl refl refl ok' refl Some refl ne refl ge]
          have "?r = search_loop_auto e theme max_posts
              (fst ?st, snd ?st, posts_retrieved + int (length response),
               record_call (fst (snd (check_and_wait t w))), sleep 2 ?w1)"
            by (rule search_loop_auto_next [OF lt ok Some ne ge])
          with IH keep show ?thesis by auto
        qed
      qed
    qed
  qed
qed


lemma total_calls_check_and_wait:
  "total_calls (fst (snd (check_and_wait t w))) = total_calls t"
  by (simp add: check_and_wait_def hour_rollover_def day_rollover_def hourly_wait_def Let_def
      split: prod.splits if_splits)

section \<open>The pagination cursor\<close>

text \<open>
  C8 (as amended). After a page the cursor is the timestamp of the last post of the page
  that carries one, and it is unchanged when no post of the page carries one. This is
  the oldest timestamp seen in the page when the page lists its posts from the newest to
  the oldest. In both variants of the search, the loop goes on from a full page with
  this cursor, which is the \<open>before\<close> of the next fetch.
\<close>

theorem cursor_after_page:
  "snd (scan_posts locs response (bl, before))
     = (if timestamps response = [] then before else Some (last (timestamps response))) \<and>
   (timestamps response \<noteq> [] \<and> sorted (rev (timestamps response))
      \<longrightarrow> snd (scan_posts locs response (bl, before)) = Some (Min (set (timestamps response)))) \<and>
   (posts_retrieved < max_posts \<and>
    tagged e (clock w) theme (before_arg before) (page_limit max_posts posts_retrieved)
      = Some response \<and>
    response \<noteq> [] \<and> \<not> int (length response) < page_limit max_posts posts_retrieved
      \<longrightarrow> search_loop e theme max_posts (bl, before, posts_retrieved, w)
          = search_loop e theme max_posts
              (fst (scan_posts (gazetteer e) response (bl, before)),
               (if timestamps response = [] then before else Some (last (timestamps response))),
               posts_retrieved + int (length response), sleep 2 w)) \<and>
   (posts_retrieved < max_posts \<and> fst (check_and_wait t w) \<and>
    tagged e (clock (snd (snd (check_and_wait t w)))) theme (before_arg before)
      (page_limit max_posts posts_retrieved) = Some response \<and>
    response \<noteq> [] \<and> \<not> int (length response) < page_limit max_posts posts_retrieved
      \<longrightarrow> search_loop_auto e theme max_posts (bl, before, posts_retrieved, t, w)
          = search_loop_auto e theme max_posts
              (fst (scan_posts (gazetteer e) response (bl, before)),
               (if timestamps response = [] then before else Some (last (timestamps response))),
               posts_retrieved + int (length response),
               record_call (fst (snd (check_and_wait t w))),
               sleep 2 (snd (snd (check_and_wait t w)))))"
proof (intro conjI impI)
  show c: "snd (scan_posts locs response (bl, before))
      = (if timestamps response = [] then before else Some (last (timestamps response)))" for locs
    by (simp add: snd_scan_posts)
  {
    assume "timestamps response \<noteq> [] \<and> sorted (rev (timestamps response))"
    then show "snd (scan_posts locs response (bl, before)) = Some (Min (set (timestamps response)))"
      by (simp add: c last_Min)
  }
  {
    assume "posts_retrieved < max_posts \<and>
      tagged e (clock w) theme (before_arg before) (page_limit max_posts posts_retrieved)
        = Some response \<and>
      response \<noteq> [] \<and> \<not> int (length response) < page_limit max_posts posts_retrieved"
    then show "search_loop e theme max_posts (bl, before, posts_retrieved, w)
        = search_loop e theme max_posts
            (fst (scan_posts (gazetteer e) response (bl, before)),
             (if timestamps response = [] then before else Some (last (timestamps response))),
             posts_retrieved + int (length response), sleep 2 w)"
      using search_loop_next [of posts_retrieved max_posts e w theme before response bl]
      unfolding c by blast
  }
  {
    assume "posts_retrieved < max_posts \<and> fst (check_and_wait t w) \<and>
      tagged e (clock (snd (snd (check_and_wait t w)))) theme (before_arg before)
        (page_limit max_posts posts_retrieved) = Some response \<and>
      response \<noteq> [] \<and> \<not> int (length response) < page_limit max_posts posts_retrieved"
    then show "search_loop_auto e theme max_posts (bl, before, posts_retrieved, t, w)
        = search_loop_auto e theme max_posts
            (fst (scan_posts (gazetteer e) response (bl, before)),
             (if timestamps response = [] then before else Some (last (timestamps response))),
             posts_retrieved + int (length response),
             record_call (fst (snd (check_and_wait t w))),
             sleep 2 (snd (snd (check_and_wait t w))))"
      using search_loop_auto_next [of posts_retrieved max_posts t w e theme before response bl]
      unfolding c by blast
  }
qed

lemma example_page_facts:
  "length example_page = 20" "example_page \<noteq> []" "timestamps example_page \<noteq> []"
  "last (timestamps example_page) = 100"
  by (code_simp+)

lemma fresh_check_and_wait:
  "check_and_wait (new_tracker 1700100000) example_world = (True, new_tracker 1700100000, example_world)"
  by (simp add: check_and_wait_def new_tracker_def example_world_def hour_rollover_def
      day_rollover_def hourly_wait_def Let_def)

theorem cursor_after_page_witness:
  "snd (scan_posts LOCATION_INDICATORS [bare_post ''cats'' 200, bare_post ''cats'' 100] ([], None))
     = Some 100 \<and>
   search_loop example_env ''cats'' 40 ([], None, 0, example_world)
     = search_loop example_env ''cats'' 40
         (fst (scan_posts LOCATION_INDICATORS example_page ([], None)), Some 100, 20,
          sleep 2 example_world) \<and>
   search_loop_auto example_env ''cats'' 40 ([], None, 0, new_tracker 1700100000, example_world)
     = search_loop_auto example_env ''cats'' 40
         (fst (scan_posts LOCATION_INDICATORS example_page ([], None)), Some 100, 20,
          record_call (new_tracker 1700100000), sleep 2 example_world)"
  using cursor_after_page [where locs = LOCATION_INDICATORS
      and response = "[bare_post ''cats'' 200, bare_post ''cats'' 100]" and bl = "[]"
      and before = None and posts_retrieved = 0 and max_posts = 0 and e = example_env]
    cursor_after_page [where locs = LOCATION_INDICATORS and response = example_page
      and bl = "[]" and before = None and posts_retrieved = 0 and max_posts = 40
      and e = example_env and w = example_world and theme = "''cats''"
      and t = "new_tracker 1700100000"]
  by (simp add: example_page_facts fresh_check_and_wait timestamps_Cons timestamps_Nil
      bare_post_def example_env_def page_limit_def)

text \<open>
  C8 as stated fails: on a page that lists a post of time 100 before a post of time 200
  the cursor becomes 200, and the oldest timestamp of the page is 100.
\<close>

theorem cursor_after_page_counterexample:
  "snd (scan_posts LOCATION_INDICATORS [bare_post ''cats'' 100, bare_post ''cats'' 200] ([], None))
     = Some 200 \<and>
   Min (set (timestamps [bare_post ''cats'' 100, bare_post ''cats'' 200])) = 100"
  by (simp add: snd_scan_posts timestamps_Cons timestamps_Nil bare_post_def)

section \<open>A search that the tracker stops\<close>

text \<open>
  C4. When the tracker denies the call before a page is fetched, the rate-limited search
  returns at once with the mapping gathered so far, and no call is counted. Whatever
  happens later in the loop, every blog gathered so far is in the mapping returned, with
  all the evidence gathered for it.
\<close>

theorem search_stops_when_denied:
  "(posts_retrieved < max_posts \<and> \<not> fst (check_and_wait t w)
      \<longrightarrow> search_loop_auto e theme max_posts (bl, before, posts_retrieved, t, w)
            = (bl, snd (check_and_wait t w)) \<and>
          total_calls (fst (snd (check_and_wait t w))) = total_calls t) \<and>
   (has_key k bl
      \<longrightarrow> has_key k (fst (search_loop_auto e theme max_posts (bl, before, posts_retrieved, t, w)))) \<and>
   evidence k bl
     \<subseteq> evidence k (fst (search_loop_auto e theme max_posts (bl, before, posts_retrieved, t, w)))"
  using search_loop_auto_keeps [of k "(bl, before, posts_retrieved, t, w)" e theme max_posts]
  by (simp add: search_loop_auto_denied total_calls_check_and_wait)

lemma denied_check_and_wait:
  "check_and_wait (busy_tracker\<lparr>hourly_calls := 40\<rparr>) example_world
     = (False, busy_tracker\<lparr>hourly_calls := 40\<rparr>, example_world)"
  by (simp add: check_and_wait_def busy_tracker_def example_world_def hour_rollover_def
      day_rollover_def hourly_wait_def Let_def)

theorem search_stops_when_denied_witness:
  "search_loop_auto example_env ''cats'' 40
     ([(''cats'', [''sf (in post_body)''])], Some 100, 20, busy_tracker\<lparr>hourly_calls := 40\<rparr>,
      example_world)
     = ([(''cats'', [''sf (in post_body)''])], busy_tracker\<lparr>hourly_calls := 40\<rparr>, example_world)"
  using search_stops_when_denied [where posts_retrieved = 20 and max_posts = 40
      and t = "busy_tracker\<lparr>hourly_calls := 40\<rparr>" and w = example_world and e = example_env
      and theme = "''cats''" and bl = "[(''cats'', [''sf (in post_body)''])]"
      and before = "Some 100"]
  by (simp add: denied_check_and_wait)

section \<open>Processing one blog\<close>

lemma contains_sub_prefix: "take (length sep) xs = sep \<Longrightarrow> contains_sub sep xs"
  by (cases xs) auto

lemma contains_sub_append: "contains_sub sep (T @ sep @ rest)"
proof (induction T)
  case Nil
  show ?case by (rule contains_sub_prefix) simp
next
  case (Cons c T)
  then show ?case by simp
qed

lemma split_head_append:
  assumes "sep = CHR 0x20 # CHR ''('' # sep'" and "CHR ''('' \<notin> set T"
  shows "split_head sep (T @ sep @ rest) = T"
  using assms(2)
proof (induction T)
  case Nil
  show ?case by (simp add: assms(1))
next
  case (Cons c T)
  have "take (length sep) (c # T @ sep @ rest) \<noteq> sep"
    using Cons.prems by (cases T) (auto simp: assms(1))
  with Cons show ?case by simp
qed

lemma mention_term_mention:
  assumes "CHR ''('' \<notin> set T"
  shows "mention_term (mention T source) = T"
proof -
  define sep where "sep = '' (in''"
  define rest where "rest = '' '' @ source @ '')''"
  have m: "mention T source = T @ sep @ rest"
    by (simp add: mention_def sep_def rest_def)
  have "sep = CHR 0x20 # CHR ''('' # ''in''" by (simp add: sep_def)
  then have "split_head sep (T @ sep @ rest) = T"
    using assms by (rule split_head_append)
  moreover have "contains_sub sep (T @ sep @ rest)" by (rule contains_sub_append)
  ultimately show ?thesis
    unfolding mention_term_def m sep_def [symmetric] by simp
qed

lemma resolve_location_mentions:
  assumes "\<forall>xs. xs \<noteq> [] \<longrightarrow> first_of e xs \<in> set xs" and "mentions \<noteq> []"
  shows "\<exists>m\<in>set mentions. resolve_location e mentions info = Some (mention_term m, ''post_content'')"
  using assms by (auto simp: resolve_location_def Let_def)

lemma resolve_location_profile:
  "resolve_location e [] info = profile_match e info"
  by (simp add: resolve_location_def profile_match_def)

lemma qualify_mentions:
  assumes "\<forall>xs. xs \<noteq> [] \<longrightarrow> first_of e xs \<in> set xs" and "mentions \<noteq> []"
    and "fst (meets_criteria now info min_followers max_days_inactive)"
  shows "\<exists>m\<in>set mentions.
    qualify e now theme min_followers max_days_inactive blog_name mentions info
      = Some (qualified_record blog_name info
                (snd (meets_criteria now info min_followers max_days_inactive))
                (mention_term m) ''post_content'' theme)"
proof -
  from resolve_location_mentions [OF assms(1,2)] obtain m where
    "m \<in> set mentions" "resolve_location e mentions info = Some (mention_term m, ''post_content'')"
    by blast
  with assms(3) show ?thesis by (auto simp: qualify_def Let_def)
qed

lemma qualify_profile:
  assumes "fst (meets_criteria now info min_followers max_days_inactive)"
  shows "qualify e now theme min_followers max_days_inactive blog_name [] info
    = (case profile_match e info of
         Some (T, source) \<Rightarrow>
           Some (qualified_record blog_name info
                   (snd (meets_criteria now info min_followers max_days_inactive)) T source theme)
       | None \<Rightarrow> None)"
  using assms by (simp add: qualify_def Let_def resolve_location_profile)

lemma process_blog_known:
  "has_key blog_name (discovered_blogs f) \<Longrightarrow>
     process_blog e theme min_followers max_days_inactive blog_name mentions (f, w)
       = (f\<lparr>blog_themes := default_add blog_name theme (blog_themes f)\<rparr>, w)"
  by (simp add: process_blog_def)

lemma process_blog_new:
  "\<not> has_key blog_name (discovered_blogs f) \<Longrightarrow>
   blog_info_of e (clock w) blog_name = Some info \<Longrightarrow>
     process_blog e theme min_followers max_days_inactive blog_name mentions (f, w)
       = (case qualify e (clock w) theme min_followers max_days_inactive blog_name mentions info of
            None \<Rightarrow> (f, w)
          | Some r \<Rightarrow> (store_blog blog_name r theme f, sleep 2 w))"
  by (simp add: process_blog_def)

lemma process_blog_auto_known:
  "has_key blog_name (discovered_blogs f) \<Longrightarrow>
     process_blog_auto e theme min_followers max_days_inactive processed blog_name mentions (f, w)
       = (False, f\<lparr>blog_themes := default_add blog_name theme (blog_themes f)\<rparr>, w)"
  by (simp add: process_blog_auto_def)

lemma process_blog_auto_new:
  assumes "\<not> has_key blog_name (discovered_blogs f)"
    and "fst (check_and_wait (rate_tracker f) w)"
    and "blog_info_of e (clock (snd (snd (check_and_wait (rate_tracker f) w)))) blog_name = Some info"
  shows "fst (process_blog_auto e theme min_followers max_days_inactive processed blog_name
                mentions (f, w)) = False \<and>
    fst (snd (process_blog_auto e theme min_followers max_days_inactive processed blog_name
                mentions (f, w)))
      = (case qualify e (clock (snd (snd (check_and_wait (rate_tracker f) w)))) theme min_followers
                max_days_inactive blog_name mentions info of
           None \<Rightarrow> f\<lparr>rate_tracker := record_call (fst (snd (check_and_wait (rate_tracker f) w)))\<rparr>
         | Some r \<Rightarrow>
             store_blog blog_name r theme
               (f\<lparr>rate_tracker := record_call (fst (snd (check_and_wait (rate_tracker f) w)))\<rparr>))"
  using assms
  by (simp add: process_blog_auto_def get_blog_info_auto_def Let_def split: option.splits)

lemma map_of_store_blog:
  "map_of (discovered_blogs (store_blog blog_name r theme f)) blog_name = Some r"
  by (simp add: store_blog_def map_of_dict_set)


lemma profile_match_example: "profile_match example_env example_info = Some (''sf'', ''title'')"
proof -
  have "match_fields LOCATION_INDICATORS
      ([(''url'', ''https://cats.tumblr.com/'')] @
       [(''title'', ''Living in SF now''), (''description'', ''cats'')])
    = match_fields LOCATION_INDICATORS [(''title'', ''Living in SF now''), (''description'', ''cats'')]"
    by (rule match_fields_skip [OF wt_locs]) (simp add: hits_url)
  moreover have "match_fields LOCATION_INDICATORS
      [(''title'', ''Living in SF now''), (''description'', ''cats'')]
    = Some (hd (hits LOCATION_INDICATORS ''Living in SF now''), ''title'')"
    by (rule match_fields_hit [OF wt_locs]) (simp add: hits_living)
  ultimately show ?thesis
    by (simp add: profile_match_def example_env_def example_info_def get_str_def get_tags_def
        find_location_match_def hits_living)
qed

lemma example_env_facts:
  "blog_info_of example_env now blog_name = Some example_info"
  "gazetteer example_env = LOCATION_INDICATORS"
  "first_of example_env = hd"
  "tagged example_env now theme before limit = Some example_page"
  by (simp_all add: example_env_def)

lemma example_world_facts:
  "clock example_world = 1700100000" "sleeps example_world = []"
  "progress_file example_world = None"
  by (simp_all add: example_world_def)

lemma example_info_eligible:
  "meets_criteria 1700100000 example_info 10 90 = (True, Some 1700000000)"
  by (simp add: meets_criteria_def example_info_def get_int_def Let_def days_since_example)

section \<open>The location of a qualified blog\<close>

text \<open>
  C6. Let \<open>list(s)[0]\<close> be a member of \<open>s\<close> for every non-empty set \<open>s\<close>, and take a
  candidate that is not stored yet, whose profile is fetched and passes the eligibility
  check. In both variants of the pipeline: if the candidate carries evidence from posts,
  it is stored with the source \<open>post_content\<close> and with the term of one member of its
  evidence; if it carries none, the location matcher is run over url, title, description
  and tags of the profile, and the candidate is stored with the term and source found;
  if the matcher finds nothing either, the candidate is dropped and the stored blogs are
  unchanged. The term of an evidence text that the search wrote for a term \<open>T\<close> is \<open>T\<close>.
\<close>

theorem enrichment_location:
  assumes pick: "\<forall>xs. xs \<noteq> [] \<longrightarrow> first_of e xs \<in> set xs"
    and new: "\<not> has_key blog_name (discovered_blogs f)"
  shows
    "(blog_info_of e (clock w) blog_name = Some info \<and>
      fst (meets_criteria (clock w) info min_followers max_days_inactive)
        \<longrightarrow> (mentions \<noteq> []
               \<longrightarrow> (\<exists>r. map_of (discovered_blogs (fst (process_blog e theme min_followers
                            max_days_inactive blog_name mentions (f, w)))) blog_name = Some r \<and>
                        q_location_match_source r = ''post_content'' \<and>
                        q_location_match_term r \<in> mention_term ` set mentions)) \<and>
            (mentions = [] \<and> profile_match e info = Some (T, source)
               \<longrightarrow> (\<exists>r. map_of (discovered_blogs (fst (process_blog e theme min_followers
                            max_days_inactive blog_name mentions (f, w)))) blog_name = Some r \<and>
                        q_location_match_term r = T \<and> q_location_match_source r = source)) \<and>
            (mentions = [] \<and> profile_match e info = None
               \<longrightarrow> process_blog e theme min_followers max_days_inactive blog_name mentions
                     (f, w) = (f, w))) \<and>
     (fst (check_and_wait (rate_tracker f) w) \<and>
      blog_info_of e (clock (snd (snd (check_and_wait (rate_tracker f) w)))) blog_name
        = Some info \<and>
      fst (meets_criteria (clock (snd (snd (check_and_wait (rate_tracker f) w)))) info
             min_followers max_days_inactive)
        \<longrightarrow> (mentions \<noteq> []
               \<longrightarrow> (\<exists>r. map_of (discovered_blogs (fst (snd (process_blog_auto e theme
                            min_followers max_days_inactive processed blog_name mentions
                            (f, w))))) blog_name = Some r \<and>
                        q_location_match_source r = ''post_content'' \<and>
                        q_location_match_term r \<in> mention_term ` set mentions)) \<and>
            (mentions = [] \<and> profile_match e info = Some (T, source)
               \<longrightarrow> (\<exists>r. map_of (discovered_blogs (fst (snd (process_blog_auto e theme
                            min_followers max_days_inactive processed blog_name mentions
                            (f, w))))) blog_name = Some r \<and>
                        q_location_match_term r = T \<and> q_location_match_source r = source)) \<and>
            (mentions = [] \<and> profile_match e info = None
               \<longrightarrow> discovered_blogs (fst (snd (process_blog_auto e theme min_followers
                       max_days_inactive processed blog_name mentions (f, w))))
                     = discovered_blogs f)) \<and>
     (CHR ''('' \<notin> set T' \<longrightarrow> mention_term (mention T' source') = T')"
proof (intro conjI impI)
  show "mention_term (mention T' source') = T'" if "CHR ''('' \<notin> set T'"
    using that by (rule mention_term_mention)
next
  assume a: "blog_info_of e (clock w) blog_name = Some info \<and>
      fst (meets_criteria (clock w) info min_followers max_days_inactive)"
  let ?p = "process_blog e theme min_followers max_days_inactive blog_name mentions (f, w)"
  let ?q = "qualify e (clock w) theme min_followers max_days_inactive blog_name mentions info"
  have step: "?p = (case ?q of None \<Rightarrow> (f, w)
      | Some r \<Rightarrow> (store_blog blog_name r theme f, sleep 2 w))"
    using new a by (simp add: process_blog_new)
  {
    assume "mentions \<noteq> []"
    with qualify_mentions [OF pick this, of "clock w" info min_followers max_days_inactive theme
        blog_name] a
    obtain m where m: "m \<in> set mentions"
      and q: "?q = Some (qualified_record blog_name info
                (snd (meets_criteria (clock w) info min_followers max_days_inactive))
                (mention_term m) ''post_content'' theme)"
      by blast
    show "\<exists>r. map_of (discovered_blogs (fst ?p)) blog_name = Some r \<and>
        q_location_match_source r = ''post_content'' \<and>
        q_location_match_term r \<in> mention_term ` set mentions"
      using m by (simp add: step q map_of_store_blog qualified_record_def)
  }
  {
    assume b: "mentions = [] \<and> profile_match e info = Some (T, source)"
    have q: "?q = Some (qualified_record blog_name info
                (snd (meets_criteria (clock w) info min_followers max_days_inactive))
                T source theme)"
      using a b by (simp add: qualify_profile)
    show "\<exists>r. map_of (discovered_blogs (fst ?p)) blog_name = Some r \<and>
        q_location_match_term r = T \<and> q_location_match_source r = source"
      by (simp add: step q map_of_store_blog qualified_record_def)
  }
  {
    assume b: "mentions = [] \<and> profile_match e info = None"
    have q: "?q = None"
      using a b by (simp add: qualify_profile)
    show "?p = (f, w)"
      by (simp add: step q)
  }
next
  let ?w1 = "snd (snd (check_and_wait (rate_tracker f) w))"
  let ?f1 = "f\<lparr>rate_tracker := record_call (fst (snd (check_and_wait (rate_tracker f) w)))\<rparr>"
  assume a: "fst (check_and_wait (rate_tracker f) w) \<and>
      blog_info_of e (clock ?w1) blog_name = Some info \<and>
      fst (meets_criteria (clock ?w1) info min_followers max_days_inactive)"
  let ?p = "process_blog_auto e theme min_followers max_days_inactive processed blog_name
      mentions (f, w)"
  let ?q = "qualify e (clock ?w1) theme min_followers max_days_inactive blog_name mentions info"
  have step: "fst (snd ?p) = (case ?q of None \<Rightarrow> ?f1 | Some r \<Rightarrow> store_blog blog_name r theme ?f1)"
    using process_blog_auto_new [OF new, of w e info] a by simp
  {
    assume "mentions \<noteq> []"
    with qualify_mentions [OF pick this, of "clock ?w1" info min_followers max_days_inactive
        theme blog_name] a
    obtain m where m: "m \<in> set mentions"
      and q: "?q = Some (qualified_record blog_name info
                (snd (meets_criteria (clock ?w1) info min_followers max_days_inactive))
                (mention_term m) ''post_content'' theme)"
      by blast
    show "\<exists>r. map_of (discovered_blogs (fst (snd ?p))) blog_name = Some r \<and>
        q_location_match_source r = ''post_content'' \<and>
        q_location_match_term r \<in> mention_term ` set mentions"
      using m by (simp add: step q map_of_store_blog qualified_record_def)
  }
  {
    assume b: "mentions = [] \<and> profile_match e info = Some (T, source)"
    have q: "?q = Some (qualified_record blog_name info
                (snd (meets_criteria (clock ?w1) info min_followers max_days_inactive))
                T source theme)"
      using a b by (simp add: qualify_profile)
    show "\<exists>r. map_of (discovered_blogs (fst (snd ?p))) blog_name = Some r \<and>
        q_location_match_term r = T \<and> q_location_match_source r = source"
      by (simp add: step q map_of_store_blog qualified_record_def)
  }
  {
    assume b: "mentions = [] \<and> profile_match e info = None"
    have q: "?q = None"
      using a b by (simp add: qualify_profile)
    show "discovered_blogs (fst (snd ?p)) = discovered_blogs f"
      by (simp add: step q)
  }
qed

theorem enrichment_location_witness:
  "(\<exists>r. map_of (discovered_blogs (fst (process_blog example_env ''little'' 10 90 ''cats''
            [mention ''sf'' ''post_body''] (new_finder 1700100000, example_world)))) ''cats''
          = Some r \<and>
        q_location_match_source r = ''post_content'' \<and>
        q_location_match_term r \<in> mention_term ` set [mention ''sf'' ''post_body'']) \<and>
   (\<exists>r. map_of (discovered_blogs (fst (snd (process_blog_auto example_env ''little'' 10 90 1
            ''cats'' [] (new_finder 1700100000, example_world))))) ''cats'' = Some r \<and>
        q_location_match_term r = ''sf'' \<and> q_location_match_source r = ''title'') \<and>
   mention_term (mention ''sf'' ''post_body'') = ''sf''"
proof -
  have pick: "\<forall>xs. xs \<noteq> [] \<longrightarrow> first_of example_env xs \<in> set xs"
    by (simp add: example_env_facts)
  have new: "\<not> has_key ''cats'' (discovered_blogs (new_finder 1700100000))"
    by (simp add: new_finder_def has_key_def)
  show ?thesis
    using enrichment_location [OF pick new, where w = example_world and info = example_info
        and min_followers = 10 and max_days_inactive = 90
        and mentions = "[mention ''sf'' ''post_body'']" and theme = "''little''"]
      enrichment_location [OF pick new, where w = example_world and info = example_info
        and min_followers = 10 and max_days_inactive = 90 and mentions = "[]"
        and theme = "''little''" and T = "''sf''" and source = "''title''" and processed = 1
        and T' = "''sf''" and source' = "''post_body''"]
    by (simp add: example_env_facts example_world_facts new_finder_def fresh_check_and_wait
        example_info_eligible profile_match_example mention_term_mention)
qed

end
